theory Spec2Isabelle
  imports Complex_Main
begin

section \<open>JavaScript helpers\<close>

text \<open>
  Strings are lists of single-byte characters. A query parameter, a header or a cookie
  that the request does not carry is \<open>None\<close> (JavaScript's \<open>undefined\<close>).
\<close>

text \<open>Truthiness of a value that is a string or undefined: the empty string is falsy.\<close>

fun truthy :: "string option \<Rightarrow> bool" where
  "truthy None = False"
| "truthy (Some s) = (s \<noteq> [])"

definition startsWith :: "string \<Rightarrow> string \<Rightarrow> bool" where
  "startsWith s p = (take (length p) s = p)"

text \<open>\<open>s.split(c)\<close> for a one-character separator; the empty string splits into \<open>['']\<close>.\<close>

fun split :: "char \<Rightarrow> string \<Rightarrow> string list" where
  "split c [] = [[]]"
| "split c (x # xs) =
     (if x = c then [] # split c xs
      else (case split c xs of [] \<Rightarrow> [[x]] | p # ps \<Rightarrow> (x # p) # ps))"

text \<open>\<open>xs[i]\<close>: undefined out of range.\<close>

fun index :: "'a list \<Rightarrow> nat \<Rightarrow> 'a option" where
  "index [] i = None"
| "index (x # xs) 0 = Some x"
| "index (x # xs) (Suc i) = index xs i"

text \<open>The characters matched by \<open>\s\<close> among the single-byte characters.\<close>

definition isSpace :: "char \<Rightarrow> bool" where
  "isSpace c = (c \<in> set [CHR '' '', CHR 0x09, CHR 0x0A, CHR 0x0B, CHR 0x0C, CHR 0x0D, CHR 0xA0])"

definition trim :: "string \<Rightarrow> string" where
  "trim s = rev (dropWhile isSpace (rev (dropWhile isSpace s)))"

section \<open>Errors and the environment\<close>

text \<open>The error responses of the handlers, by HTTP status.\<close>

datatype error = ValidationError | Unauthorized | Forbidden | NotFound | ServerError

fun http_status :: "error \<Rightarrow> nat" where
  "http_status ValidationError = 400"
| "http_status Unauthorized = 401"
| "http_status Forbidden = 403"
| "http_status NotFound = 404"
| "http_status ServerError = 500"

text \<open>
  The handlers call libraries that are not part of the repository. Their behaviour is a
  parameter of the model, so every theorem holds whatever they compute:
  \<^item> \<open>jwtVerify token secret\<close>: jsonwebtoken's \<open>verify\<close>; \<open>None\<close> when it throws
    (bad signature, expired, malformed), otherwise the \<open>id\<close> field of the decoded payload
    (\<open>None\<close> when the payload has none);
  \<^item> \<open>jwtSecret\<close>: \<open>process.env.JWT_SECRET\<close>;
  \<^item> \<open>isObjectId\<close>: whether the database layer can cast a string to an object id; a
    lookup by an id that cannot be cast throws;
  \<^item> \<open>toNumber\<close>: the cast of a query string to a Number in a filter on a numeric path;
    \<open>None\<close> when the cast throws;
  \<^item> \<open>regexTest pattern\<close>: the database's \<open>$regex\<close> operator with option \<open>i\<close>;
    \<open>None\<close> when the pattern does not compile, otherwise the test on a subject string;
  \<^item> \<open>isFloat\<close>: the validator library's float check; \<open>None\<close> when the string is not
    a float, otherwise its value.
\<close>

record env =
  jwtVerify :: "string \<Rightarrow> string \<Rightarrow> string option option"
  jwtSecret :: string
  isObjectId :: "string \<Rightarrow> bool"
  toNumber :: "string \<Rightarrow> real option"
  regexTest :: "string \<Rightarrow> (string \<Rightarrow> bool) option"
  isFloat :: "string \<Rightarrow> real option"

section \<open>Users and the auth middleware\<close>

text \<open>
  The fields of the User schema that the middleware and the routes read. The password
  is \<open>None\<close> on a document loaded with \<open>select('-password')\<close>.
\<close>

record user =
  user_id :: string
  password :: "string option"
  userType :: string
  userVerified :: bool
  isActive :: bool

text \<open>The part of a request the auth middleware reads.\<close>

record credentials =
  authorization :: "string option"
  cookie_token :: "string option"

text \<open>\<open>User.findById(id).select('-password')\<close>: undefined id resolves to null, an id
  that cannot be cast throws (\<open>Inl\<close>), otherwise the first document with that id.\<close>

definition User_findById :: "env \<Rightarrow> user list \<Rightarrow> string option \<Rightarrow> unit + user option" where
  "User_findById E users i =
     (case i of
        None \<Rightarrow> Inr None
      | Some s \<Rightarrow>
          if \<not> isObjectId E s then Inl ()
          else Inr (map_option (\<lambda>u. u\<lparr>password := None\<rparr>)
                      (find (\<lambda>u. user_id u = s) users)))"

text \<open>Lines 6-15 of the middleware: the token of the request.\<close>

definition request_token :: "credentials \<Rightarrow> string option" where
  "request_token req =
     (case authorization req of
        Some h \<Rightarrow>
          if h \<noteq> [] \<and> startsWith h ''Bearer'' then index (split CHR '' '' h) 1
          else if truthy (cookie_token req) then cookie_token req else None
      | None \<Rightarrow> if truthy (cookie_token req) then cookie_token req else None)"

definition protect :: "env \<Rightarrow> user list \<Rightarrow> credentials \<Rightarrow> error + user" where
  "protect E users req =
     (case request_token req of
        None \<Rightarrow> Inl Unauthorized
      | Some token \<Rightarrow>
          if token = [] then Inl Unauthorized
          else
            (case jwtVerify E token (jwtSecret E) of
               None \<Rightarrow> Inl Unauthorized
             | Some decoded \<Rightarrow>
                 (case User_findById E users decoded of
                    Inl _ \<Rightarrow> Inl Unauthorized
                  | Inr None \<Rightarrow> Inl Unauthorized
                  | Inr (Some u) \<Rightarrow>
                      if \<not> isActive u then Inl Unauthorized else Inr u)))"

definition requireVerification :: "user \<Rightarrow> error + user" where
  "requireVerification u = (if \<not> userVerified u then Inl Forbidden else Inr u)"

definition requireServiceProvider :: "user \<Rightarrow> error + user" where
  "requireServiceProvider u =
     (if userType u \<noteq> ''service_provider'' then Inl Forbidden else Inr u)"

text \<open>\<open>optionalAuth\<close>: the identity attached to the request, if any; it never fails.\<close>

definition optionalAuth :: "env \<Rightarrow> user list \<Rightarrow> credentials \<Rightarrow> user option" where
  "optionalAuth E users req =
     (case request_token req of
        None \<Rightarrow> None
      | Some token \<Rightarrow>
          if token = [] then None
          else
            (case jwtVerify E token (jwtSecret E) of
               None \<Rightarrow> None
             | Some decoded \<Rightarrow>
                 (case User_findById E users decoded of
                    Inl _ \<Rightarrow> None
                  | Inr None \<Rightarrow> None
                  | Inr (Some u) \<Rightarrow> if isActive u then Some u else None)))"

text \<open>Stored users carry ids the database layer accepts, and ids are unique.\<close>

definition users_ok :: "env \<Rightarrow> user list \<Rightarrow> bool" where
  "users_ok E users = (list_all (\<lambda>u. isObjectId E (user_id u)) users \<and> distinct (map user_id users))"

section \<open>The Service model\<close>

text \<open>
  The Service schema. Numbers are reals (only their order matters here), dates are
  integer timestamps, enumerated strings stay strings as the code compares them.
  Availability and media are carried as opaque lists. A document without a
  \<open>featuredUntil\<close>, \<open>duration\<close>, \<open>shortDescription\<close> or \<open>subcategory\<close> has \<open>None\<close> there.
\<close>

record price =
  ptype :: string
  amount :: real
  currency :: string

record area =
  cities :: "string list"
  maxDistance :: "real option"
  travelFee :: real

record service =
  service_id :: string
  provider :: string
  title :: string
  description :: string
  shortDescription :: "string option"
  category :: string
  subcategory :: "string option"
  tags :: "string list"
  serviceType :: string
  duration :: "real option"
  availability :: "string list"
  pricing :: price
  serviceArea :: area
  onSiteService :: bool
  remoteService :: bool
  images :: "string list"
  videos :: "string list"
  documents :: "string list"
  ratingAverage :: real
  ratingCount :: nat
  isVerified :: bool
  status :: string
  isFeatured :: bool
  featuredUntil :: "int option"
  viewCount :: nat
  createdAt :: int

definition categories :: "string list" where
  "categories =
     [''home_services'', ''automotive'', ''healthcare'', ''education'', ''technology'',
      ''beauty_wellness'', ''professional_services'', ''entertainment'', ''maintenance'',
      ''consulting'', ''other'']"

definition pricing_types :: "string list" where
  "pricing_types = [''fixed'', ''hourly'', ''per_unit'', ''negotiable'']"

definition currencies :: "string list" where
  "currencies = [''NOK'', ''EUR'', ''USD'']"

definition service_types :: "string list" where
  "service_types = [''one_time'', ''recurring'', ''subscription'', ''consultation'']"

definition statuses :: "string list" where
  "statuses = [''active'', ''inactive'', ''suspended'', ''pending_review'']"

text \<open>
  A request body is a JSON object: a list of members, each a key of the schema with a
  value of the schema's type (a pricing or service-area member carries the whole nested
  object, an absent currency being its default). For a repeated key the last member wins.
  Bodies that carry an \<open>_id\<close>, timestamps, or a value of another JSON type under one of
  these keys are outside the model.
\<close>

datatype field =
    Title string
  | Description string
  | ShortDescription string
  | Category string
  | Subcategory string
  | Tags "string list"
  | ServiceType string
  | Duration real
  | Availability "string list"
  | Pricing price
  | ServiceArea area
  | OnSiteService bool
  | RemoteService bool
  | Images "string list"
  | Videos "string list"
  | Documents "string list"
  | QualityRating real nat
  | IsVerified bool
  | Status string
  | IsFeatured bool
  | FeaturedUntil int
  | ViewCount nat
  | Provider string

fun key :: "field \<Rightarrow> string" where
  "key (Title _) = ''title''"
| "key (Description _) = ''description''"
| "key (ShortDescription _) = ''shortDescription''"
| "key (Category _) = ''category''"
| "key (Subcategory _) = ''subcategory''"
| "key (Tags _) = ''tags''"
| "key (ServiceType _) = ''serviceType''"
| "key (Duration _) = ''duration''"
| "key (Availability _) = ''availability''"
| "key (Pricing _) = ''pricing''"
| "key (ServiceArea _) = ''serviceArea''"
| "key (OnSiteService _) = ''onSiteService''"
| "key (RemoteService _) = ''remoteService''"
| "key (Images _) = ''images''"
| "key (Videos _) = ''videos''"
| "key (Documents _) = ''documents''"
| "key (QualityRating _ _) = ''qualityRating''"
| "key (IsVerified _) = ''isVerified''"
| "key (Status _) = ''status''"
| "key (IsFeatured _) = ''isFeatured''"
| "key (FeaturedUntil _) = ''featuredUntil''"
| "key (ViewCount _) = ''viewCount''"
| "key (Provider _) = ''provider''"

text \<open>\<open>body[k]\<close>: the last member with key \<open>k\<close>, or undefined.\<close>

definition member :: "field list \<Rightarrow> string \<Rightarrow> field option" where
  "member body k = find (\<lambda>f. key f = k) (rev body)"

text \<open>The \<open>trim()\<close> sanitizers of the validation chains rewrite the body.\<close>

fun sanitize :: "field \<Rightarrow> field" where
  "sanitize (Title t) = Title (trim t)"
| "sanitize (Description d) = Description (trim d)"
| "sanitize f = f"

text \<open>Assigning a member to a document; the schema trims title and subcategory.\<close>

fun assign :: "field \<Rightarrow> service \<Rightarrow> service" where
  "assign (Title t) d = d\<lparr>title := trim t\<rparr>"
| "assign (Description x) d = d\<lparr>description := x\<rparr>"
| "assign (ShortDescription x) d = d\<lparr>shortDescription := Some x\<rparr>"
| "assign (Category x) d = d\<lparr>category := x\<rparr>"
| "assign (Subcategory x) d = d\<lparr>subcategory := Some (trim x)\<rparr>"
| "assign (Tags x) d = d\<lparr>tags := x\<rparr>"
| "assign (ServiceType x) d = d\<lparr>serviceType := x\<rparr>"
| "assign (Duration x) d = d\<lparr>duration := Some x\<rparr>"
| "assign (Availability x) d = d\<lparr>availability := x\<rparr>"
| "assign (Pricing x) d = d\<lparr>pricing := x\<rparr>"
| "assign (ServiceArea x) d = d\<lparr>serviceArea := x\<rparr>"
| "assign (OnSiteService x) d = d\<lparr>onSiteService := x\<rparr>"
| "assign (RemoteService x) d = d\<lparr>remoteService := x\<rparr>"
| "assign (Images x) d = d\<lparr>images := x\<rparr>"
| "assign (Videos x) d = d\<lparr>videos := x\<rparr>"
| "assign (Documents x) d = d\<lparr>documents := x\<rparr>"
| "assign (QualityRating a c) d = d\<lparr>ratingAverage := a, ratingCount := c\<rparr>"
| "assign (IsVerified x) d = d\<lparr>isVerified := x\<rparr>"
| "assign (Status x) d = d\<lparr>status := x\<rparr>"
| "assign (IsFeatured x) d = d\<lparr>isFeatured := x\<rparr>"
| "assign (FeaturedUntil x) d = d\<lparr>featuredUntil := Some x\<rparr>"
| "assign (ViewCount x) d = d\<lparr>viewCount := x\<rparr>"
| "assign (Provider x) d = d\<lparr>provider := x\<rparr>"

text \<open>The schema's validators, member by member (as validators run on an update).\<close>

fun field_valid :: "field \<Rightarrow> bool" where
  "field_valid (Title t) = (trim t \<noteq> [] \<and> length (trim t) \<le> 100)"
| "field_valid (Description x) = (x \<noteq> [] \<and> length x \<le> 1000)"
| "field_valid (ShortDescription x) = (length x \<le> 200)"
| "field_valid (Category x) = (x \<in> set categories)"
| "field_valid (ServiceType x) = (x \<in> set service_types)"
| "field_valid (Duration x) = (15 \<le> x)"
| "field_valid (Pricing p) =
     (ptype p \<in> set pricing_types \<and> 0 \<le> amount p \<and> currency p \<in> set currencies)"
| "field_valid (QualityRating a c) = (0 \<le> a \<and> a \<le> 5)"
| "field_valid (Status x) = (x \<in> set statuses)"
| "field_valid _ = True"

text \<open>The same validators on a whole document (as they run on \<open>save\<close>); a required
  string that is missing is the empty string.\<close>

definition schema_valid :: "service \<Rightarrow> bool" where
  "schema_valid d =
     (title d \<noteq> [] \<and> length (title d) \<le> 100
      \<and> description d \<noteq> [] \<and> length (description d) \<le> 1000
      \<and> (case shortDescription d of None \<Rightarrow> True | Some x \<Rightarrow> length x \<le> 200)
      \<and> category d \<in> set categories
      \<and> serviceType d \<in> set service_types
      \<and> (case duration d of None \<Rightarrow> True | Some x \<Rightarrow> 15 \<le> x)
      \<and> ptype (pricing d) \<in> set pricing_types
      \<and> 0 \<le> amount (pricing d)
      \<and> currency (pricing d) \<in> set currencies
      \<and> 0 \<le> ratingAverage d \<and> ratingAverage d \<le> 5
      \<and> status d \<in> set statuses)"

text \<open>The part of \<open>schema_valid\<close> that an absent member cannot violate: every validator
  except \<open>required\<close> and the status enumeration.\<close>

definition schema_bounds :: "service \<Rightarrow> bool" where
  "schema_bounds d =
     (length (title d) \<le> 100
      \<and> length (description d) \<le> 1000
      \<and> (case shortDescription d of None \<Rightarrow> True | Some x \<Rightarrow> length x \<le> 200)
      \<and> (category d = [] \<or> category d \<in> set categories)
      \<and> serviceType d \<in> set service_types
      \<and> (case duration d of None \<Rightarrow> True | Some x \<Rightarrow> 15 \<le> x)
      \<and> (ptype (pricing d) = [] \<or> ptype (pricing d) \<in> set pricing_types)
      \<and> 0 \<le> amount (pricing d)
      \<and> currency (pricing d) \<in> set currencies
      \<and> 0 \<le> ratingAverage d \<and> ratingAverage d \<le> 5)"

text \<open>\<open>new Service({})\<close>: the schema's defaults, with a fresh id and the creation time.\<close>

definition new_Service :: "string \<Rightarrow> int \<Rightarrow> service" where
  "new_Service i now =
     \<lparr>service_id = i, provider = [], title = [], description = [], shortDescription = None,
      category = [], subcategory = None, tags = [], serviceType = ''one_time'',
      duration = None, availability = [],
      pricing = \<lparr>ptype = [], amount = 0, currency = ''NOK''\<rparr>,
      serviceArea = \<lparr>cities = [], maxDistance = None, travelFee = 0\<rparr>,
      onSiteService = True, remoteService = False, images = [], videos = [], documents = [],
      ratingAverage = 0, ratingCount = 0, isVerified = False, status = ''pending_review'',
      isFeatured = False, featuredUntil = None, viewCount = 0, createdAt = now\<rparr>"

subsection \<open>The collection\<close>

text \<open>The collection is the list of its documents, in storage order.\<close>

definition Service_findById :: "env \<Rightarrow> service list \<Rightarrow> string \<Rightarrow> error + service option" where
  "Service_findById E store i =
     (if \<not> isObjectId E i then Inl ServerError
      else Inr (find (\<lambda>d. service_id d = i) store))"

text \<open>Replacing, and removing, the first document with a given id.\<close>

fun replace :: "string \<Rightarrow> service \<Rightarrow> service list \<Rightarrow> service list" where
  "replace i d' [] = []"
| "replace i d' (d # ds) = (if service_id d = i then d' # ds else d # replace i d' ds)"

fun remove :: "string \<Rightarrow> service list \<Rightarrow> service list" where
  "remove i [] = []"
| "remove i (d # ds) = (if service_id d = i then ds else d # remove i ds)"

definition incrementViewCount :: "service \<Rightarrow> service" where
  "incrementViewCount d = d\<lparr>viewCount := viewCount d + 1\<rparr>"

section \<open>The routes of the services router\<close>

subsection \<open>Reading the body\<close>

fun title_of :: "field \<Rightarrow> string option" where
  "title_of (Title t) = Some t"
| "title_of _ = None"

fun description_of :: "field \<Rightarrow> string option" where
  "description_of (Description t) = Some t"
| "description_of _ = None"

fun category_of :: "field \<Rightarrow> string option" where
  "category_of (Category t) = Some t"
| "category_of _ = None"

fun pricing_of :: "field \<Rightarrow> price option" where
  "pricing_of (Pricing p) = Some p"
| "pricing_of _ = None"

fun serviceArea_of :: "field \<Rightarrow> area option" where
  "serviceArea_of (ServiceArea a) = Some a"
| "serviceArea_of _ = None"

definition body_title :: "field list \<Rightarrow> string option" where
  "body_title body = Option.bind (member body ''title'') title_of"

definition body_description :: "field list \<Rightarrow> string option" where
  "body_description body = Option.bind (member body ''description'') description_of"

definition body_category :: "field list \<Rightarrow> string option" where
  "body_category body = Option.bind (member body ''category'') category_of"

definition body_pricing :: "field list \<Rightarrow> price option" where
  "body_pricing body = Option.bind (member body ''pricing'') pricing_of"

definition body_serviceArea :: "field list \<Rightarrow> area option" where
  "body_serviceArea body = Option.bind (member body ''serviceArea'') serviceArea_of"

subsection \<open>POST /\<close>

text \<open>The validation chains of the route: no error is reported exactly when all hold.\<close>

definition create_valid :: "field list \<Rightarrow> bool" where
  "create_valid body =
     ((case body_title body of
         None \<Rightarrow> False | Some t \<Rightarrow> 5 \<le> length (trim t) \<and> length (trim t) \<le> 100)
      \<and> (case body_description body of
         None \<Rightarrow> False | Some t \<Rightarrow> 20 \<le> length (trim t) \<and> length (trim t) \<le> 1000)
      \<and> (case body_category body of None \<Rightarrow> False | Some c \<Rightarrow> c \<in> set categories)
      \<and> (case body_pricing body of None \<Rightarrow> False | Some p \<Rightarrow> ptype p \<in> set pricing_types)
      \<and> (case body_pricing body of None \<Rightarrow> False | Some p \<Rightarrow> 0 \<le> amount p)
      \<and> (case body_serviceArea body of None \<Rightarrow> False | Some a \<Rightarrow> 1 \<le> length (cities a)))"

text \<open>The middleware in front of the create and update handlers.\<close>

definition provider_gate :: "env \<Rightarrow> user list \<Rightarrow> credentials \<Rightarrow> error + user" where
  "provider_gate E users req =
     (case protect E users req of
        Inl e \<Rightarrow> Inl e
      | Inr u \<Rightarrow>
          (case requireServiceProvider u of
             Inl e \<Rightarrow> Inl e
           | Inr u' \<Rightarrow> requireVerification u'))"

text \<open>
  The handler. \<open>fresh\<close> is the id the model layer generates for the new document and
  \<open>now\<close> the time of the request. A document that fails the schema's validators makes
  \<open>save\<close> throw, which the handler reports as a server error.
\<close>

definition create_service ::
  "env \<Rightarrow> user list \<Rightarrow> credentials \<Rightarrow> field list \<Rightarrow> string \<Rightarrow> int \<Rightarrow> service list
     \<Rightarrow> (error + service) \<times> service list" where
  "create_service E users req body fresh now store =
     (case provider_gate E users req of
        Inl e \<Rightarrow> (Inl e, store)
      | Inr u \<Rightarrow>
          if \<not> create_valid body then (Inl ValidationError, store)
          else
            (let serviceData = map sanitize body @ [Provider (user_id u), Status ''pending_review''];
                 service = fold assign serviceData (new_Service fresh now)
             in if \<not> schema_valid service then (Inl ServerError, store)
                else (Inr service, store @ [service])))"

subsection \<open>GET /:id\<close>

text \<open>The handler never reads the identity that \<open>optionalAuth\<close> attached.\<close>

definition get_service ::
  "env \<Rightarrow> user list \<Rightarrow> credentials \<Rightarrow> string \<Rightarrow> service list
     \<Rightarrow> (error + service) \<times> service list" where
  "get_service E users req i store =
     (let caller = optionalAuth E users req in
      case Service_findById E store i of
        Inl e \<Rightarrow> (Inl ServerError, store)
      | Inr None \<Rightarrow> (Inl NotFound, store)
      | Inr (Some service) \<Rightarrow>
          if status service \<noteq> ''active'' then (Inl NotFound, store)
          else
            (let service' = incrementViewCount service
             in (Inr service', replace i service' store)))"

subsection \<open>PUT /:id\<close>

definition update_valid :: "field list \<Rightarrow> bool" where
  "update_valid body =
     ((case body_title body of
         None \<Rightarrow> True | Some t \<Rightarrow> 5 \<le> length (trim t) \<and> length (trim t) \<le> 100)
      \<and> (case body_description body of
         None \<Rightarrow> True | Some t \<Rightarrow> 20 \<le> length (trim t) \<and> length (trim t) \<le> 1000)
      \<and> (case body_pricing body of None \<Rightarrow> True | Some p \<Rightarrow> 0 \<le> amount p))"

definition allowedUpdates :: "string list" where
  "allowedUpdates =
     [''title'', ''description'', ''shortDescription'', ''subcategory'', ''tags'',
      ''duration'', ''availability'', ''pricing'', ''serviceArea'', ''onSiteService'',
      ''remoteService'', ''images'', ''videos'', ''documents'']"

text \<open>\<open>findByIdAndUpdate(id, update, {new: true, runValidators: true})\<close>: a member that
  fails its validator makes the call throw; otherwise the members are assigned to the
  first document with that id, and the updated document is returned.\<close>

definition findByIdAndUpdate ::
  "env \<Rightarrow> string \<Rightarrow> field list \<Rightarrow> service list \<Rightarrow> error + (service option \<times> service list)" where
  "findByIdAndUpdate E i upd store =
     (if \<not> isObjectId E i then Inl ServerError
      else if \<not> list_all field_valid upd then Inl ServerError
      else
        (case find (\<lambda>d. service_id d = i) store of
           None \<Rightarrow> Inr (None, store)
         | Some d \<Rightarrow> (let d' = fold assign upd d in Inr (Some d', replace i d' store))))"

text \<open>Lines 276-293: the members kept by the allow-list, with the status reset.\<close>

definition filteredUpdates :: "field list \<Rightarrow> field list" where
  "filteredUpdates updates =
     (let filtered = filter (\<lambda>f. key f \<in> set allowedUpdates) updates
      in if truthy (body_title filtered) \<or> truthy (body_description filtered)
            \<or> body_pricing filtered \<noteq> None
         then filtered @ [Status ''pending_review'']
         else filtered)"

definition update_service ::
  "env \<Rightarrow> user list \<Rightarrow> credentials \<Rightarrow> string \<Rightarrow> field list \<Rightarrow> service list
     \<Rightarrow> (error + service option) \<times> service list" where
  "update_service E users req i body store =
     (case provider_gate E users req of
        Inl e \<Rightarrow> (Inl e, store)
      | Inr u \<Rightarrow>
          if \<not> update_valid body then (Inl ValidationError, store)
          else
            (case Service_findById E store i of
               Inl e \<Rightarrow> (Inl ServerError, store)
             | Inr None \<Rightarrow> (Inl NotFound, store)
             | Inr (Some service) \<Rightarrow>
                 if provider service \<noteq> user_id u then (Inl Forbidden, store)
                 else
                   (case findByIdAndUpdate E i (filteredUpdates (map sanitize body)) store of
                      Inl e \<Rightarrow> (Inl ServerError, store)
                    | Inr (updatedService, store') \<Rightarrow> (Inr updatedService, store'))))"

subsection \<open>DELETE /:id\<close>

definition delete_service ::
  "env \<Rightarrow> user list \<Rightarrow> credentials \<Rightarrow> string \<Rightarrow> service list
     \<Rightarrow> (error + unit) \<times> service list" where
  "delete_service E users req i store =
     (case protect E users req of
        Inl e \<Rightarrow> (Inl e, store)
      | Inr u \<Rightarrow>
          (case requireServiceProvider u of
             Inl e \<Rightarrow> (Inl e, store)
           | Inr u' \<Rightarrow>
               (case Service_findById E store i of
                  Inl e \<Rightarrow> (Inl ServerError, store)
                | Inr None \<Rightarrow> (Inl NotFound, store)
                | Inr (Some service) \<Rightarrow>
                    if provider service \<noteq> user_id u' then (Inl Forbidden, store)
                    else (Inr (), remove i store))))"

subsection \<open>GET /categories\<close>

text \<open>The handler's static list: id, name, icon (the icon as its UTF-8 bytes).\<close>

definition get_categories :: "(string \<times> string \<times> string) list" where
  "get_categories =
     [
      (''home_services'', ''Home Services'', [CHR 0xF0, CHR 0x9F, CHR 0x8F, CHR 0xA0]),
      (''automotive'', ''Automotive'', [CHR 0xF0, CHR 0x9F, CHR 0x9A, CHR 0x97]),
      (''healthcare'', ''Healthcare'', [CHR 0xF0, CHR 0x9F, CHR 0x8F, CHR 0xA5]),
      (''education'', ''Education'', [CHR 0xF0, CHR 0x9F, CHR 0x93, CHR 0x9A]),
      (''technology'', ''Technology'', [CHR 0xF0, CHR 0x9F, CHR 0x92, CHR 0xBB]),
      (''beauty_wellness'', ''Beauty & Wellness'', [CHR 0xF0, CHR 0x9F, CHR 0x92, CHR 0x84]),
      (''professional_services'', ''Professional Services'', [CHR 0xF0, CHR 0x9F, CHR 0x92, CHR 0xBC]),
      (''entertainment'', ''Entertainment'', [CHR 0xF0, CHR 0x9F, CHR 0x8E, CHR 0xAD]),
      (''maintenance'', ''Maintenance'', [CHR 0xF0, CHR 0x9F, CHR 0x94, CHR 0xA7]),
      (''consulting'', ''Consulting'', [CHR 0xF0, CHR 0x9F, CHR 0x93, CHR 0x8B]),
      (''other'', ''Other'', [CHR 0xE2, CHR 0x9C, CHR 0xA8])]"

subsection \<open>GET /\<close>

text \<open>
  \<open>parseInt(s)\<close>: leading white space, a sign, an optional \<open>0x\<close> prefix, then the
  longest run of digits; \<open>None\<close> is NaN. The value is exact (a Number is, below \<open>2^53\<close>).
\<close>

definition charCode :: "char \<Rightarrow> nat" where
  "charCode c = of_char c"

definition isDigit :: "nat \<Rightarrow> char \<Rightarrow> bool" where
  "isDigit radix c =
     ((charCode CHR ''0'' \<le> charCode c \<and> charCode c \<le> charCode CHR ''9'')
      \<or> (radix = 16
          \<and> ((charCode CHR ''a'' \<le> charCode c \<and> charCode c \<le> charCode CHR ''f'')
              \<or> (charCode CHR ''A'' \<le> charCode c \<and> charCode c \<le> charCode CHR ''F''))))"

definition digit :: "char \<Rightarrow> nat" where
  "digit c =
     (if charCode CHR ''a'' \<le> charCode c then charCode c - 87
      else if charCode CHR ''A'' \<le> charCode c then charCode c - 55
      else charCode c - 48)"

definition parseInt :: "string \<Rightarrow> int option" where
  "parseInt s =
     (let s1 = dropWhile isSpace s;
          neg = startsWith s1 ''-'';
          s2 = (if startsWith s1 ''-'' \<or> startsWith s1 ''+'' then drop 1 s1 else s1);
          hex = (startsWith s2 ''0x'' \<or> startsWith s2 ''0X'');
          radix = (if hex then 16 else 10);
          s3 = (if hex then drop 2 s2 else s2);
          ds = takeWhile (isDigit radix) s3;
          n = int (foldl (\<lambda>a c. a * radix + digit c) 0 ds)
      in if ds = [] then None else Some (if neg then - n else n))"

text \<open>The query string of the request.\<close>

record query =
  q_category :: "string option"
  q_city :: "string option"
  q_minPrice :: "string option"
  q_maxPrice :: "string option"
  q_rating :: "string option"
  q_page :: "string option"
  q_limit :: "string option"
  q_sort :: "string option"

text \<open>The filter object of lines 103-112, 134 and 141. \<open>f_isFeatured\<close> is \<open>Some True\<close>
  for \<open>isFeatured: true\<close> and \<open>Some False\<close> for \<open>isFeatured: {$ne: true}\<close>.\<close>

record query_filter =
  f_status :: string
  f_isVerified :: bool
  f_category :: "string option"
  f_cities :: "string option"
  f_gte :: "string option"
  f_lte :: "string option"
  f_rating :: "string option"
  f_isFeatured :: "bool option"

definition build_filter :: "query \<Rightarrow> query_filter" where
  "build_filter q =
     \<lparr>f_status = ''active'', f_isVerified = True,
      f_category = (if truthy (q_category q) then q_category q else None),
      f_cities = (if truthy (q_city q) then q_city q else None),
      f_gte = (if truthy (q_minPrice q) \<or> truthy (q_maxPrice q)
               then (if truthy (q_minPrice q) then q_minPrice q else None) else None),
      f_lte = (if truthy (q_minPrice q) \<or> truthy (q_maxPrice q)
               then (if truthy (q_maxPrice q) then q_maxPrice q else None) else None),
      f_rating = (if truthy (q_rating q) then q_rating q else None),
      f_isFeatured = None\<rparr>"

text \<open>Casting an optional condition: absent stays absent, a failed cast is \<open>None\<close>.\<close>

fun cast_opt :: "('a \<Rightarrow> 'b option) \<Rightarrow> 'a option \<Rightarrow> 'b option option" where
  "cast_opt f None = Some None"
| "cast_opt f (Some x) = map_option Some (f x)"

text \<open>A condition that is absent holds.\<close>

fun holds :: "'a option \<Rightarrow> ('a \<Rightarrow> bool) \<Rightarrow> bool" where
  "holds None P = True"
| "holds (Some x) P = P x"

text \<open>
  The database's reading of a filter: the conditions are cast first (a failed cast makes
  the query throw), then a document matches when every condition holds. A regex on the
  city array holds when some city matches.
\<close>

definition cast_filter :: "env \<Rightarrow> query_filter \<Rightarrow> (service \<Rightarrow> bool) option" where
  "cast_filter E flt =
     (case (cast_opt (regexTest E) (f_cities flt), cast_opt (toNumber E) (f_gte flt),
            cast_opt (toNumber E) (f_lte flt), cast_opt (toNumber E) (f_rating flt)) of
        (Some city, Some gte, Some lte, Some rating) \<Rightarrow>
          Some (\<lambda>d. status d = f_status flt
                   \<and> isVerified d = f_isVerified flt
                   \<and> holds (f_category flt) (\<lambda>c. category d = c)
                   \<and> holds city (\<lambda>test. list_ex test (cities (serviceArea d)))
                   \<and> holds gte (\<lambda>v. v \<le> amount (pricing d))
                   \<and> holds lte (\<lambda>v. amount (pricing d) \<le> v)
                   \<and> holds rating (\<lambda>v. v \<le> ratingAverage d)
                   \<and> holds (f_isFeatured flt) (\<lambda>b. isFeatured d = b))
      | _ \<Rightarrow> None)"

definition Service_find :: "env \<Rightarrow> query_filter \<Rightarrow> service list \<Rightarrow> error + service list" where
  "Service_find E flt store =
     (case cast_filter E flt of
        None \<Rightarrow> Inl ServerError
      | Some matches \<Rightarrow> Inr (filter matches store))"

text \<open>
  Sorting. A sort object is the list of its keys with their directions. Documents are
  compared key by key; a missing \<open>featuredUntil\<close> sorts below every date. Documents that
  compare equal keep their storage order.
\<close>

datatype path = P_amount | P_rating | P_createdAt | P_featuredUntil | P_isFeatured

datatype ordering = LT | EQ | GT

definition compare :: "'a::linorder \<Rightarrow> 'a \<Rightarrow> ordering" where
  "compare x y = (if x < y then LT else if x = y then EQ else GT)"

fun compare_option :: "int option \<Rightarrow> int option \<Rightarrow> ordering" where
  "compare_option None None = EQ"
| "compare_option None (Some y) = LT"
| "compare_option (Some x) None = GT"
| "compare_option (Some x) (Some y) = compare x y"

fun compare_on :: "path \<Rightarrow> service \<Rightarrow> service \<Rightarrow> ordering" where
  "compare_on P_amount a b = compare (amount (pricing a)) (amount (pricing b))"
| "compare_on P_rating a b = compare (ratingAverage a) (ratingAverage b)"
| "compare_on P_createdAt a b = compare (createdAt a) (createdAt b)"
| "compare_on P_featuredUntil a b = compare_option (featuredUntil a) (featuredUntil b)"
| "compare_on P_isFeatured a b = compare (isFeatured a) (isFeatured b)"

fun compare_by :: "(path \<times> int) list \<Rightarrow> service \<Rightarrow> service \<Rightarrow> ordering" where
  "compare_by [] a b = EQ"
| "compare_by ((p, dir) # ps) a b =
     (case (if dir < 0 then compare_on p b a else compare_on p a b) of
        EQ \<Rightarrow> compare_by ps a b
      | r \<Rightarrow> r)"

text \<open>What the proofs ask of a three-way comparison: swapping the arguments swaps the
  answer, equal documents compare alike with any third, and \<open>LT\<close> is transitive.\<close>

fun opposite :: "ordering \<Rightarrow> ordering" where
  "opposite LT = GT"
| "opposite EQ = EQ"
| "opposite GT = LT"

definition comparator :: "('a \<Rightarrow> 'a \<Rightarrow> ordering) \<Rightarrow> bool" where
  "comparator c =
     ((\<forall>a b. c b a = opposite (c a b))
      \<and> (\<forall>a b z. c a b = EQ \<longrightarrow> c a z = c b z)
      \<and> (\<forall>a b z. c a b = LT \<and> c b z = LT \<longrightarrow> c a z = LT))"

fun insert_sorted :: "(path \<times> int) list \<Rightarrow> service \<Rightarrow> service list \<Rightarrow> service list" where
  "insert_sorted spec x [] = [x]"
| "insert_sorted spec x (y # ys) =
     (if compare_by spec x y = GT then y # insert_sorted spec x ys else x # y # ys)"

definition sort_docs :: "(path \<times> int) list \<Rightarrow> service list \<Rightarrow> service list" where
  "sort_docs spec ds = foldr (insert_sorted spec) ds []"

text \<open>Lines 115-131.\<close>

definition sortObj :: "string \<Rightarrow> (path \<times> int) list" where
  "sortObj s =
     (if s = ''price_asc'' then [(P_amount, 1)]
      else if s = ''price_desc'' then [(P_amount, - 1)]
      else if s = ''rating_desc'' then [(P_rating, - 1)]
      else if s = ''oldest'' then [(P_createdAt, 1)]
      else [(P_createdAt, - 1)])"

text \<open>
  The cursor's \<open>limit\<close> and \<open>skip\<close>. The database rejects NaN and a negative skip; a limit
  of 0 is no limit, and a negative limit is the limit of its absolute value.
\<close>

definition cursor_limit :: "int option \<Rightarrow> 'a list \<Rightarrow> error + 'a list" where
  "cursor_limit n ds =
     (case n of
        None \<Rightarrow> Inl ServerError
      | Some k \<Rightarrow> if k = 0 then Inr ds else Inr (take (nat \<bar>k\<bar>) ds))"

definition cursor_skip :: "int option \<Rightarrow> 'a list \<Rightarrow> error + 'a list" where
  "cursor_skip n ds =
     (case n of
        None \<Rightarrow> Inl ServerError
      | Some k \<Rightarrow> if k < 0 then Inl ServerError else Inr (drop (nat k) ds))"

text \<open>The destructuring defaults of lines 97-99 apply to an undefined parameter only.\<close>

definition page_of :: "query \<Rightarrow> int option" where
  "page_of q = (case q_page q of None \<Rightarrow> Some 1 | Some s \<Rightarrow> parseInt s)"

definition limit_of :: "query \<Rightarrow> int option" where
  "limit_of q = (case q_limit q of None \<Rightarrow> Some 12 | Some s \<Rightarrow> parseInt s)"

definition sort_of :: "query \<Rightarrow> string" where
  "sort_of q = (case q_sort q of None \<Rightarrow> ''newest'' | Some s \<Rightarrow> s)"

definition skip_of :: "query \<Rightarrow> int option" where
  "skip_of q =
     (case (page_of q, limit_of q) of (Some p, Some l) \<Rightarrow> Some ((p - 1) * l) | _ \<Rightarrow> None)"

text \<open>Lines 134-138.\<close>

definition featuredServices :: "env \<Rightarrow> query \<Rightarrow> service list \<Rightarrow> error + service list" where
  "featuredServices E q store =
     (case Service_find E ((build_filter q)\<lparr>f_isFeatured := Some True\<rparr>) store of
        Inl e \<Rightarrow> Inl e
      | Inr ds \<Rightarrow>
          cursor_limit (limit_of q) (sort_docs ((P_featuredUntil, - 1) # sortObj (sort_of q)) ds))"

text \<open>Lines 141-149.\<close>

definition regularServices :: "env \<Rightarrow> query \<Rightarrow> service list \<Rightarrow> error + service list" where
  "regularServices E q store =
     (case Service_find E ((build_filter q)\<lparr>f_isFeatured := Some False\<rparr>) store of
        Inl e \<Rightarrow> Inl e
      | Inr ds \<Rightarrow>
          (case cursor_skip (skip_of q) (sort_docs (sortObj (sort_of q)) ds) of
             Inl e \<Rightarrow> Inl e
           | Inr ds' \<Rightarrow> cursor_limit (limit_of q) ds'))"

text \<open>Line 150.\<close>

definition countDocuments :: "env \<Rightarrow> query_filter \<Rightarrow> service list \<Rightarrow> error + nat" where
  "countDocuments E flt store =
     (case Service_find E flt store of Inl e \<Rightarrow> Inl e | Inr ds \<Rightarrow> Inr (length ds))"

text \<open>The response: the services and the part of the pagination that is integer
  arithmetic.\<close>

record page =
  services :: "service list"
  currentPage :: int
  totalServices :: nat
  hasPrevPage :: bool

text \<open>
  The handler. Each returned document has its view count incremented in memory before
  the response is written, and saved; the collection below is the one after the saves.
\<close>

definition list_services ::
  "env \<Rightarrow> user list \<Rightarrow> credentials \<Rightarrow> query \<Rightarrow> service list \<Rightarrow> (error + page) \<times> service list" where
  "list_services E users req q store =
     (let caller = optionalAuth E users req in
      case featuredServices E q store of
        Inl e \<Rightarrow> (Inl ServerError, store)
      | Inr featured \<Rightarrow>
          (case (regularServices E q store,
                 countDocuments E ((build_filter q)\<lparr>f_isFeatured := Some False\<rparr>) store,
                 page_of q) of
             (Inr regular, Inr total', Some p) \<Rightarrow>
               (let found = featured @ regular
                in (Inr \<lparr>services = map incrementViewCount found,
                         currentPage = p,
                         totalServices = total' + length featured,
                         hasPrevPage = (1 < p)\<rparr>,
                    map (\<lambda>d. if service_id d \<in> set (map service_id found)
                             then incrementViewCount d else d) store))
           | _ \<Rightarrow> (Inl ServerError, store)))"

text \<open>
  The validation chains declared on the route (lines 81-88). \<open>isInt\<close> accepts an optional
  sign and a decimal numeral without leading zeros. The handler above does not read
  their result.
\<close>

definition isInt :: "string \<Rightarrow> int option" where
  "isInt s =
     (let neg = startsWith s ''-'';
          ds = (if startsWith s ''-'' \<or> startsWith s ''+'' then drop 1 s else s);
          n = int (foldl (\<lambda>a c. a * 10 + digit c) 0 ds)
      in if ds \<noteq> [] \<and> list_all (isDigit 10) ds \<and> (ds = ''0'' \<or> \<not> startsWith ds ''0'')
         then Some (if neg then - n else n) else None)"

definition query_valid :: "env \<Rightarrow> query \<Rightarrow> bool" where
  "query_valid E q =
     (holds (q_minPrice q) (\<lambda>s. case isFloat E s of None \<Rightarrow> False | Some v \<Rightarrow> 0 \<le> v)
      \<and> holds (q_maxPrice q) (\<lambda>s. case isFloat E s of None \<Rightarrow> False | Some v \<Rightarrow> 0 \<le> v)
      \<and> holds (q_rating q) (\<lambda>s. case isFloat E s of None \<Rightarrow> False | Some v \<Rightarrow> 0 \<le> v \<and> v \<le> 5)
      \<and> holds (q_page q) (\<lambda>s. case isInt s of None \<Rightarrow> False | Some n \<Rightarrow> 1 \<le> n)
      \<and> holds (q_limit q) (\<lambda>s. case isInt s of None \<Rightarrow> False | Some n \<Rightarrow> 1 \<le> n \<and> n \<le> 50)
      \<and> holds (q_sort q)
           (\<lambda>s. s \<in> set [''price_asc'', ''price_desc'', ''rating_desc'', ''newest'', ''oldest'']))"

subsection \<open>GET /provider/:providerId\<close>

definition provider_services :: "env \<Rightarrow> string \<Rightarrow> service list \<Rightarrow> error + service list" where
  "provider_services E providerId store =
     (if \<not> isObjectId E providerId then Inl ServerError
      else Inr (sort_docs [(P_isFeatured, - 1), (P_createdAt, - 1)]
                  (filter (\<lambda>d. provider d = providerId \<and> status d = ''active'' \<and> isVerified d)
                     store)))"

subsection \<open>Dispatch\<close>

text \<open>
  The router tries its routes in the order of their registration; the first route whose
  verb and path match handles the request, and every handler here answers without
  passing on. A path is the list of its segments below the mount point, and a route
  parameter matches any non-empty segment.
\<close>

datatype verb = GET | POST | PUT | DELETE

datatype segment = Lit string | Param

datatype handler = H_create | H_list | H_get | H_update | H_delete | H_provider | H_categories

definition routes :: "(verb \<times> segment list \<times> handler) list" where
  "routes =
     [(POST, [], H_create),
      (GET, [], H_list),
      (GET, [Param], H_get),
      (PUT, [Param], H_update),
      (DELETE, [Param], H_delete),
      (GET, [Lit ''provider'', Param], H_provider),
      (GET, [Lit ''categories''], H_categories)]"

fun path_matches :: "segment list \<Rightarrow> string list \<Rightarrow> bool" where
  "path_matches [] [] = True"
| "path_matches (Lit l # ps) (x # xs) = (l = x \<and> path_matches ps xs)"
| "path_matches (Param # ps) (x # xs) = (x \<noteq> [] \<and> path_matches ps xs)"
| "path_matches _ _ = False"

definition dispatch :: "verb \<Rightarrow> string list \<Rightarrow> handler option" where
  "dispatch m p =
     map_option (\<lambda>(m', ps, h). h) (find (\<lambda>(m', ps, h). m' = m \<and> path_matches ps p) routes)"

record request =
  r_verb :: verb
  r_path :: "string list"
  r_credentials :: credentials
  r_query :: query
  r_body :: "field list"

datatype reply =
    Created service
  | Listed page
  | Fetched service
  | Updated "service option"
  | Deleted
  | Provided "service list"
  | Categories "(string \<times> string \<times> string) list"

text \<open>A request that no route matches gets the application's 404.\<close>

definition serve ::
  "env \<Rightarrow> user list \<Rightarrow> string \<Rightarrow> int \<Rightarrow> request \<Rightarrow> service list
     \<Rightarrow> (error + reply) \<times> service list" where
  "serve E users fresh now r store =
     (case (dispatch (r_verb r) (r_path r), r_path r) of
        (Some H_create, []) \<Rightarrow>
          apfst (map_sum (\<lambda>e. e) Created)
            (create_service E users (r_credentials r) (r_body r) fresh now store)
      | (Some H_list, []) \<Rightarrow>
          apfst (map_sum (\<lambda>e. e) Listed)
            (list_services E users (r_credentials r) (r_query r) store)
      | (Some H_get, [i]) \<Rightarrow>
          apfst (map_sum (\<lambda>e. e) Fetched) (get_service E users (r_credentials r) i store)
      | (Some H_update, [i]) \<Rightarrow>
          apfst (map_sum (\<lambda>e. e) Updated)
            (update_service E users (r_credentials r) i (r_body r) store)
      | (Some H_delete, [i]) \<Rightarrow>
          apfst (map_sum (\<lambda>e. e) (\<lambda>_. Deleted))
            (delete_service E users (r_credentials r) i store)
      | (Some H_provider, [p, i]) \<Rightarrow>
          (map_sum (\<lambda>e. e) Provided (provider_services E i store), store)
      | (Some H_categories, [p]) \<Rightarrow> (Inr (Categories get_categories), store)
      | _ \<Rightarrow> (Inl NotFound, store))"

section \<open>Predicates in the words of the specification\<close>

definition toLower :: "char \<Rightarrow> char" where
  "toLower c =
     (case map_of (zip ''ABCDEFGHIJKLMNOPQRSTUVWXYZ'' ''abcdefghijklmnopqrstuvwxyz'') c of
        None \<Rightarrow> c
      | Some l \<Rightarrow> l)"

text \<open>Case-insensitive substring: \<open>p\<close> occurs in \<open>s\<close>, letters compared without case.\<close>

fun includes_ci :: "string \<Rightarrow> string \<Rightarrow> bool" where
  "includes_ci p [] = (p = [])"
| "includes_ci p (c # cs) =
     (startsWith (map toLower (c # cs)) (map toLower p) \<or> includes_ci p cs)"

text \<open>
  A listing is publicly visible and satisfies every filter the query supplies (a
  parameter that is present and not empty). The test of the city against one
  service-area city is a parameter: \<open>claimed_city\<close> is the specification's
  case-insensitive substring test.
\<close>

definition satisfies ::
  "(string \<Rightarrow> (string \<Rightarrow> bool) option) \<Rightarrow> env \<Rightarrow> query \<Rightarrow> service \<Rightarrow> bool" where
  "satisfies city_test E q d =
     (status d = ''active'' \<and> isVerified d
      \<and> (if truthy (q_category q) then q_category q = Some (category d) else True)
      \<and> (if truthy (q_city q)
          then (case Option.bind (q_city q) city_test of
                  None \<Rightarrow> False | Some test \<Rightarrow> list_ex test (cities (serviceArea d)))
          else True)
      \<and> (if truthy (q_minPrice q)
          then (case Option.bind (q_minPrice q) (toNumber E) of
                  None \<Rightarrow> False | Some v \<Rightarrow> v \<le> amount (pricing d))
          else True)
      \<and> (if truthy (q_maxPrice q)
          then (case Option.bind (q_maxPrice q) (toNumber E) of
                  None \<Rightarrow> False | Some v \<Rightarrow> amount (pricing d) \<le> v)
          else True)
      \<and> (if truthy (q_rating q)
          then (case Option.bind (q_rating q) (toNumber E) of
                  None \<Rightarrow> False | Some v \<Rightarrow> v \<le> ratingAverage d)
          else True))"

definition claimed_city :: "string \<Rightarrow> (string \<Rightarrow> bool) option" where
  "claimed_city c = Some (includes_ci c)"

text \<open>The featured-expiry timestamp of a listing has passed at time \<open>now\<close>.\<close>

definition expired :: "int \<Rightarrow> service \<Rightarrow> bool" where
  "expired now d = (case featuredUntil d of None \<Rightarrow> False | Some t \<Rightarrow> t < now)"

section \<open>A concrete environment\<close>

text \<open>
  One environment, to run the handlers on concrete requests. It agrees with the libraries
  on the inputs used below: tokens are the secret, a dot and the user id; an object id
  is 24 hexadecimal digits; numbers are decimal integers; a pattern is a sequence of
  literal characters and dots (a dot matching any character), searched anywhere in the
  subject without regard to case.
\<close>

fun match_here :: "string \<Rightarrow> string \<Rightarrow> bool" where
  "match_here [] s = True"
| "match_here (p # ps) [] = False"
| "match_here (p # ps) (c # cs) =
     ((p = CHR ''.'' \<or> toLower p = toLower c) \<and> match_here ps cs)"

fun search :: "string \<Rightarrow> string \<Rightarrow> bool" where
  "search p [] = match_here p []"
| "search p (c # cs) = (match_here p (c # cs) \<or> search p cs)"

definition dot_token :: "string \<Rightarrow> string \<Rightarrow> string option option" where
  "dot_token token secret =
     (if startsWith token (secret @ ''.'')
      then Some (Some (drop (length secret + 1) token)) else None)"

definition hex24 :: "string \<Rightarrow> bool" where
  "hex24 s = (length s = 24 \<and> list_all (isDigit 16) s)"

definition decimal :: "string \<Rightarrow> real option" where
  "decimal s = map_option of_int (isInt s)"

definition dotted :: "string \<Rightarrow> (string \<Rightarrow> bool) option" where
  "dotted p =
     (if list_ex (\<lambda>c. c \<in> set ''^$*+?()[]{}|'' \<or> c = CHR 0x5C) p
      then None else Some (search p))"

definition sample_env :: env where
  "sample_env =
     \<lparr>jwtVerify = dot_token, jwtSecret = ''secret'', isObjectId = hex24,
      toNumber = decimal, regexTest = dotted, isFloat = decimal\<rparr>"

section \<open>Sample data\<close>

definition alice :: user where
  "alice = \<lparr>user_id = ''0123456789abcdef01234567'', password = Some ''hash'',
            userType = ''service_provider'', userVerified = True, isActive = True\<rparr>"

definition bob :: user where
  "bob = \<lparr>user_id = ''bbbbbbbbbbbbbbbbbbbbbbbb'', password = Some ''hash'',
          userType = ''service_provider'', userVerified = True, isActive = True\<rparr>"

definition carol :: user where
  "carol = \<lparr>user_id = ''cccccccccccccccccccccccc'', password = Some ''hash'',
            userType = ''service_provider'', userVerified = False, isActive = True\<rparr>"

definition bearer :: "user \<Rightarrow> credentials" where
  "bearer u = \<lparr>authorization = Some (''Bearer secret.'' @ user_id u), cookie_token = None\<rparr>"

definition anonymous :: credentials where
  "anonymous = \<lparr>authorization = None, cookie_token = None\<rparr>"

text \<open>An active, verified listing of alice's, and a listing of carol's.\<close>

definition plumbing :: service where
  "plumbing =
     (new_Service ''111111111111111111111111'' 100)
       \<lparr>provider := user_id alice, title := ''Pipe repair'',
        description := ''Repair of leaking pipes'', category := ''home_services'',
        pricing := \<lparr>ptype = ''fixed'', amount = 500, currency = ''NOK''\<rparr>,
        serviceArea := \<lparr>cities = [''Oslo''], maxDistance = None, travelFee = 0\<rparr>,
        isVerified := True, status := ''active''\<rparr>"

definition tutoring :: service where
  "tutoring =
     plumbing\<lparr>service_id := ''222222222222222222222222'', provider := user_id carol,
              title := ''Math tutoring'', category := ''education''\<rparr>"

definition no_query :: query where
  "no_query =
     \<lparr>q_category = None, q_city = None, q_minPrice = None, q_maxPrice = None,
      q_rating = None, q_page = None, q_limit = None, q_sort = None\<rparr>"

text \<open>A payload that passes the validation of the create route.\<close>

definition offer :: "field list" where
  "offer =
     [Title ''Pipe repair'', Description ''Repair of leaking pipes'',
      Category ''home_services'',
      Pricing \<lparr>ptype = ''fixed'', amount = 500, currency = ''NOK''\<rparr>,
      ServiceArea \<lparr>cities = [''Oslo''], maxDistance = None, travelFee = 0\<rparr>]"

text \<open>A featured listing whose promotion ended at time 1000.\<close>

definition promo :: service where
  "promo =
     plumbing\<lparr>service_id := ''444444444444444444444444'', isFeatured := True,
               featuredUntil := Some 1000\<rparr>"

definition promo_late :: service where
  "promo_late = promo\<lparr>service_id := ''555555555555555555555555'', featuredUntil := Some 3000\<rparr>"

text \<open>Queries.\<close>

definition home_query :: query where
  "home_query = no_query\<lparr>q_category := Some ''home_services'', q_city := Some ''os'',
                          q_minPrice := Some ''100''\<rparr>"

definition first_only :: query where
  "first_only = no_query\<lparr>q_limit := Some ''1''\<rparr>"

definition sloppy :: query where
  "sloppy = no_query\<lparr>q_minPrice := Some ''-5'', q_limit := Some ''100'',
                      q_sort := Some ''cheapest''\<rparr>"

text \<open>Sixty active, verified listings with distinct ids, created one after the other;
  a later listing of carol's; a listing with the highest rating.\<close>

definition listing_id :: "nat \<Rightarrow> string" where
  "listing_id k =
     replicate 22 CHR ''0'' @ [''0123456789'' ! (k div 10), ''0123456789'' ! (k mod 10)]"

definition catalogue :: "service list" where
  "catalogue = map (\<lambda>k. plumbing\<lparr>service_id := listing_id k, createdAt := int k\<rparr>) [0..<60]"

definition later :: service where
  "later = tutoring\<lparr>createdAt := 200\<rparr>"

definition top_rated :: service where
  "top_rated = plumbing\<lparr>ratingAverage := 5\<rparr>"

definition page_zero :: query where
  "page_zero = no_query\<lparr>q_page := Some ''0''\<rparr>"

definition rating_seven :: query where
  "rating_seven = no_query\<lparr>q_rating := Some ''7''\<rparr>"

definition second_page :: query where
  "second_page = no_query\<lparr>q_page := Some ''2'', q_limit := Some ''1''\<rparr>"

section \<open>The auth middleware\<close>

lemma sample_env_simps [simp]:
  "jwtVerify sample_env = dot_token"
  "jwtSecret sample_env = ''secret''"
  "isObjectId sample_env = hex24"
  "toNumber sample_env = decimal"
  "isFloat sample_env = decimal"
  "regexTest sample_env = dotted"
  by (simp_all add: sample_env_def)

lemma hex24_samples [simp]:
  "hex24 ''111111111111111111111111''"
  "hex24 ''222222222222222222222222''"
  "hex24 ''0123456789abcdef01234567''"
  "hex24 ''bbbbbbbbbbbbbbbbbbbbbbbb''"
  "hex24 ''cccccccccccccccccccccccc''"
  "\<not> hex24 ''abc''"
  "\<not> hex24 ''categories''"
  unfolding hex24_def isDigit_def charCode_def by simp_all

lemma users_ok_alice: "users_ok sample_env [alice]"
  by (simp add: users_ok_def alice_def)

lemma find_unique:
  "distinct (map f xs) \<Longrightarrow> x \<in> set xs \<Longrightarrow> find (\<lambda>y. f y = f x) xs = Some x"
  by (induction xs) (auto simp: image_iff)

lemma protect_error: "protect E users req = Inl e \<Longrightarrow> e = Unauthorized"
  by (auto simp: protect_def split: option.splits if_splits sum.splits)

lemma protect_Inr_iff:
  "(protect E users req = Inr u) =
     (\<exists>t sub. request_token req = Some t \<and> t \<noteq> [] \<and> jwtVerify E t (jwtSecret E) = Some sub
        \<and> User_findById E users sub = Inr (Some u) \<and> isActive u)"
  by (auto simp: protect_def split: option.splits if_splits sum.splits)

lemma User_findById_Some:
  "User_findById E users sub = Inr (Some u) \<Longrightarrow>
     \<exists>stored \<in> set users. sub = Some (user_id stored) \<and> isObjectId E (user_id stored)
        \<and> u = stored\<lparr>password := None\<rparr>"
  by (auto simp: User_findById_def find_Some_iff split: option.splits if_splits)

lemma User_findById_stored:
  "users_ok E users \<Longrightarrow> stored \<in> set users \<Longrightarrow>
     User_findById E users (Some (user_id stored)) = Inr (Some (stored\<lparr>password := None\<rparr>))"
  by (auto simp: User_findById_def users_ok_def list_all_iff find_unique)

text \<open>
  Claim C6. \<open>protect\<close> takes the token from the Authorization header when that header
  starts with \<open>Bearer\<close> (the second space-separated part, whatever the cookie holds), and
  otherwise from the \<open>token\<close> cookie. It answers 401 exactly when the token is absent,
  the token fails verification, or no active stored user has the id of the token's
  payload; it answers with no other error. On success the identity attached to the
  request is that stored user with the password removed.
\<close>

theorem protect_unauthorized_iff:
  assumes ok: "users_ok E users"
  shows "((protect E users req = Inl Unauthorized) =
            (\<not> truthy (request_token req)
             \<or> (\<exists>t. request_token req = Some t \<and>
                  (jwtVerify E t (jwtSecret E) = None
                   \<or> (\<exists>sub. jwtVerify E t (jwtSecret E) = Some sub
                        \<and> \<not> (\<exists>u \<in> set users. sub = Some (user_id u) \<and> isActive u))))))
       \<and> (\<forall>e. protect E users req = Inl e \<longrightarrow> e = Unauthorized)
       \<and> (\<forall>u. protect E users req = Inr u \<longrightarrow>
             password u = None \<and> isActive u
             \<and> (\<exists>t stored. request_token req = Some t
                   \<and> jwtVerify E t (jwtSecret E) = Some (Some (user_id stored))
                   \<and> stored \<in> set users \<and> u = stored\<lparr>password := None\<rparr>))
       \<and> (\<forall>h. authorization req = Some h \<and> h \<noteq> [] \<and> startsWith h ''Bearer'' \<longrightarrow>
             request_token req = index (split CHR '' '' h) 1)
       \<and> (\<not> (\<exists>h. authorization req = Some h \<and> h \<noteq> [] \<and> startsWith h ''Bearer'') \<longrightarrow>
             request_token req = (if truthy (cookie_token req) then cookie_token req else None))"
proof (intro conjI)
  let ?fail = "\<not> truthy (request_token req)
             \<or> (\<exists>t. request_token req = Some t \<and>
                  (jwtVerify E t (jwtSecret E) = None
                   \<or> (\<exists>sub. jwtVerify E t (jwtSecret E) = Some sub
                        \<and> \<not> (\<exists>u \<in> set users. sub = Some (user_id u) \<and> isActive u))))"
  have succ: "(\<exists>u. protect E users req = Inr u) = (\<not> ?fail)"
  proof
    assume "\<exists>u. protect E users req = Inr u"
    then obtain u t sub where t: "request_token req = Some t" "t \<noteq> []"
      and v: "jwtVerify E t (jwtSecret E) = Some sub"
      and f: "User_findById E users sub = Inr (Some u)" and a: "isActive u"
      unfolding protect_Inr_iff by blast
    from User_findById_Some [OF f] obtain stored where
      s: "stored \<in> set users" "sub = Some (user_id stored)" "u = stored\<lparr>password := None\<rparr>"
      by blast
    from s a have "\<exists>u \<in> set users. sub = Some (user_id u) \<and> isActive u" by auto
    with t v show "\<not> ?fail" by auto
  next
    assume nf: "\<not> ?fail"
    then obtain t where t: "request_token req = Some t" "t \<noteq> []"
      by (cases "request_token req") auto
    from nf t obtain sub where v: "jwtVerify E t (jwtSecret E) = Some sub"
      by (cases "jwtVerify E t (jwtSecret E)") auto
    from nf t v obtain stored where s: "stored \<in> set users" "sub = Some (user_id stored)"
      "isActive stored" by auto
    from User_findById_stored [OF ok s(1)] s t v
    have "protect E users req = Inr (stored\<lparr>password := None\<rparr>)"
      unfolding protect_Inr_iff by simp
    then show "\<exists>u. protect E users req = Inr u" by blast
  qed
  show "(protect E users req = Inl Unauthorized) = ?fail"
  proof (cases "protect E users req")
    case (Inl e)
    with protect_error [OF Inl] succ show ?thesis by auto
  next
    case (Inr u)
    with succ show ?thesis by auto
  qed
  show "\<forall>e. protect E users req = Inl e \<longrightarrow> e = Unauthorized"
    using protect_error by blast
  show "\<forall>u. protect E users req = Inr u \<longrightarrow>
             password u = None \<and> isActive u
             \<and> (\<exists>t stored. request_token req = Some t
                   \<and> jwtVerify E t (jwtSecret E) = Some (Some (user_id stored))
                   \<and> stored \<in> set users \<and> u = stored\<lparr>password := None\<rparr>)"
  proof (intro allI impI)
    fix u assume "protect E users req = Inr u"
    then obtain t sub where t: "request_token req = Some t"
      and v: "jwtVerify E t (jwtSecret E) = Some sub"
      and f: "User_findById E users sub = Inr (Some u)" and a: "isActive u"
      unfolding protect_Inr_iff by blast
    from User_findById_Some [OF f] obtain stored where
      s: "stored \<in> set users" "sub = Some (user_id stored)" "u = stored\<lparr>password := None\<rparr>"
      by blast
    from s have "password u = None" by simp
    with a t v s show "password u = None \<and> isActive u
             \<and> (\<exists>t stored. request_token req = Some t
                   \<and> jwtVerify E t (jwtSecret E) = Some (Some (user_id stored))
                   \<and> stored \<in> set users \<and> u = stored\<lparr>password := None\<rparr>)"
      by blast
  qed
  show "\<forall>h. authorization req = Some h \<and> h \<noteq> [] \<and> startsWith h ''Bearer'' \<longrightarrow>
             request_token req = index (split CHR '' '' h) 1"
    by (simp add: request_token_def)
  show "\<not> (\<exists>h. authorization req = Some h \<and> h \<noteq> [] \<and> startsWith h ''Bearer'') \<longrightarrow>
             request_token req = (if truthy (cookie_token req) then cookie_token req else None)"
    by (auto simp: request_token_def split: option.splits)
qed

theorem protect_unauthorized_iff_witness:
  "users_ok sample_env [alice]
   \<and> protect sample_env [alice]
       \<lparr>authorization = Some ''Bearer secret.0123456789abcdef01234567'',
        cookie_token = Some ''stale''\<rparr> = Inr (alice\<lparr>password := None\<rparr>)
   \<and> protect sample_env [alice]
       \<lparr>authorization = Some ''Bearer'',
        cookie_token = Some ''secret.0123456789abcdef01234567''\<rparr> = Inl Unauthorized"
proof -
  have a: "protect sample_env [alice]
       \<lparr>authorization = Some ''Bearer secret.0123456789abcdef01234567'',
        cookie_token = Some ''stale''\<rparr> = Inr (alice\<lparr>password := None\<rparr>)"
    by (simp add: protect_def request_token_def startsWith_def dot_token_def
      User_findById_def alice_def)
  have b: "\<not> truthy (request_token \<lparr>authorization = Some ''Bearer'',
        cookie_token = Some ''secret.0123456789abcdef01234567''\<rparr>)"
    by (simp add: request_token_def startsWith_def)
  from protect_unauthorized_iff [OF users_ok_alice] b
  have "protect sample_env [alice]
       \<lparr>authorization = Some ''Bearer'',
        cookie_token = Some ''secret.0123456789abcdef01234567''\<rparr> = Inl Unauthorized"
    by blast
  with a users_ok_alice show ?thesis by blast
qed

section \<open>Fetching one listing\<close>

lemma find_replace:
  "find (\<lambda>d. service_id d = i) store = Some d \<Longrightarrow> service_id d' = i \<Longrightarrow>
     find (\<lambda>d. service_id d = i) (replace i d' store) = Some d'"
  by (induction store) (auto split: if_splits)

lemma plumbing_simps [simp]:
  "service_id plumbing = ''111111111111111111111111''"
  "provider plumbing = ''0123456789abcdef01234567''"
  "status plumbing = ''active''"
  "isVerified plumbing"
  "viewCount plumbing = 0"
  by (simp_all add: plumbing_def new_Service_def alice_def)

text \<open>
  Claim C4, as the code has it. For an id that the database layer can cast,
  \<open>GET /:id\<close> answers 404 when no stored listing has the id and when the stored listing's
  status is not \<open>active\<close>, whoever calls (the credentials and the users are arbitrary, so
  the owner is included). Otherwise it answers with the listing, its view count
  incremented, and the stored listing carries the incremented count when the handler
  answers.
\<close>

theorem get_service_contract:
  assumes "isObjectId E i"
  shows "((\<forall>d \<in> set store. service_id d \<noteq> i) \<longrightarrow>
            get_service E users req i store = (Inl NotFound, store))
       \<and> (\<forall>d. Service_findById E store i = Inr (Some d) \<and> status d \<noteq> ''active'' \<longrightarrow>
            get_service E users req i store = (Inl NotFound, store))
       \<and> (\<forall>d. Service_findById E store i = Inr (Some d) \<and> status d = ''active'' \<longrightarrow>
            (let d' = d\<lparr>viewCount := viewCount d + 1\<rparr>
             in get_service E users req i store = (Inr d', replace i d' store)
                \<and> Service_findById E (replace i d' store) i = Inr (Some d')))"
proof (intro conjI allI impI)
  assume "\<forall>d \<in> set store. service_id d \<noteq> i"
  then have "find (\<lambda>d. service_id d = i) store = None"
    by (simp add: find_None_iff)
  with assms show "get_service E users req i store = (Inl NotFound, store)"
    by (simp add: get_service_def Service_findById_def)
next
  fix d assume "Service_findById E store i = Inr (Some d) \<and> status d \<noteq> ''active''"
  then show "get_service E users req i store = (Inl NotFound, store)"
    by (simp add: get_service_def)
next
  fix d assume a: "Service_findById E store i = Inr (Some d) \<and> status d = ''active''"
  with assms have f: "find (\<lambda>d. service_id d = i) store = Some d"
    by (simp add: Service_findById_def)
  then have "service_id d = i" by (auto simp: find_Some_iff)
  with f have "find (\<lambda>d. service_id d = i) (replace i (d\<lparr>viewCount := viewCount d + 1\<rparr>) store)
      = Some (d\<lparr>viewCount := viewCount d + 1\<rparr>)"
    by (intro find_replace) simp_all
  with a assms show "let d' = d\<lparr>viewCount := viewCount d + 1\<rparr>
             in get_service E users req i store = (Inr d', replace i d' store)
                \<and> Service_findById E (replace i d' store) i = Inr (Some d')"
    by (simp add: get_service_def Let_def incrementViewCount_def Service_findById_def)
qed

theorem get_service_contract_witness:
  "isObjectId sample_env ''111111111111111111111111''
   \<and> get_service sample_env [alice] (bearer alice) ''111111111111111111111111''
        [plumbing\<lparr>status := ''pending_review''\<rparr>]
       = (Inl NotFound, [plumbing\<lparr>status := ''pending_review''\<rparr>])
   \<and> get_service sample_env [] anonymous ''111111111111111111111111'' [plumbing]
       = (Inr (plumbing\<lparr>viewCount := 1\<rparr>), [plumbing\<lparr>viewCount := 1\<rparr>])"
proof -
  have i: "isObjectId sample_env ''111111111111111111111111''" by simp
  have a: "Service_findById sample_env [plumbing\<lparr>status := ''pending_review''\<rparr>]
      ''111111111111111111111111'' = Inr (Some (plumbing\<lparr>status := ''pending_review''\<rparr>))"
    by (simp add: Service_findById_def)
  have b: "Service_findById sample_env [plumbing] ''111111111111111111111111''
      = Inr (Some plumbing)"
    by (simp add: Service_findById_def)
  from get_service_contract [OF i, of "[plumbing\<lparr>status := ''pending_review''\<rparr>]"
      "[alice]" "bearer alice"] a
  have 1: "get_service sample_env [alice] (bearer alice) ''111111111111111111111111''
        [plumbing\<lparr>status := ''pending_review''\<rparr>]
       = (Inl NotFound, [plumbing\<lparr>status := ''pending_review''\<rparr>])"
    by simp
  from get_service_contract [OF i, of "[plumbing]" "[]" anonymous] b
  have 2: "get_service sample_env [] anonymous ''111111111111111111111111'' [plumbing]
       = (Inr (plumbing\<lparr>viewCount := 1\<rparr>), [plumbing\<lparr>viewCount := 1\<rparr>])"
    by (simp add: Let_def)
  from i 1 2 show ?thesis by blast
qed

text \<open>
  Claim C4 as stated fails for an id that cannot be cast: the lookup throws and the
  handler answers 500, not 404, although the id resolves to no stored listing.
\<close>

theorem get_service_malformed_id:
  "get_service sample_env [] anonymous ''abc'' [] = (Inl ServerError, [])
   \<and> http_status ServerError = 500"
  by (simp add: get_service_def Service_findById_def)

section \<open>Ownership\<close>

lemma user_simps [simp]:
  "user_id alice = ''0123456789abcdef01234567''"
  "user_id bob = ''bbbbbbbbbbbbbbbbbbbbbbbb''"
  "user_id carol = ''cccccccccccccccccccccccc''"
  "userType alice = ''service_provider''" "userType bob = ''service_provider''"
  "userType carol = ''service_provider''"
  "userVerified alice" "userVerified bob" "\<not> userVerified carol"
  "isActive alice" "isActive bob" "isActive carol"
  by (simp_all add: alice_def bob_def carol_def)

lemma tutoring_simps [simp]:
  "service_id tutoring = ''222222222222222222222222''"
  "provider tutoring = ''cccccccccccccccccccccccc''"
  "status tutoring = ''active''"
  by (simp_all add: tutoring_def)

lemma users_ok_all: "users_ok sample_env [alice, bob, carol]"
  by (simp add: users_ok_def)

lemma protect_bob:
  "protect sample_env [alice, bob, carol] (bearer bob) = Inr (bob\<lparr>password := None\<rparr>)"
  using User_findById_stored [OF users_ok_all, of bob]
  by (simp add: protect_def bearer_def request_token_def startsWith_def dot_token_def)

lemma protect_carol:
  "protect sample_env [alice, bob, carol] (bearer carol) = Inr (carol\<lparr>password := None\<rparr>)"
  using User_findById_stored [OF users_ok_all, of carol]
  by (simp add: protect_def bearer_def request_token_def startsWith_def dot_token_def)

lemma find_plumbing:
  "Service_findById sample_env [plumbing, tutoring] ''111111111111111111111111'' = Inr (Some plumbing)"
  by (simp add: Service_findById_def)

lemma find_tutoring:
  "Service_findById sample_env [plumbing, tutoring] ''222222222222222222222222'' = Inr (Some tutoring)"
  by (simp add: Service_findById_def)

text \<open>
  Claim C5, as the code has it. The caller is authenticated with role
  \<open>service_provider\<close>, the listing exists and belongs to someone else. Then \<open>DELETE /:id\<close>
  answers 403, and \<open>PUT /:id\<close> answers 403 unless the caller is verified and the payload
  fails the route's validation, in which case it answers 400 before any lookup. Neither
  answers 404, and the collection is unchanged.
\<close>

theorem non_owner_forbidden:
  assumes "protect E users req = Inr u"
    and "userType u = ''service_provider''"
    and "Service_findById E store i = Inr (Some d)"
    and "provider d \<noteq> user_id u"
  shows "delete_service E users req i store = (Inl Forbidden, store)
       \<and> update_service E users req i body store =
           (if userVerified u \<and> \<not> update_valid body then Inl ValidationError
            else Inl Forbidden, store)"
  using assms
  by (simp add: delete_service_def update_service_def provider_gate_def
      requireServiceProvider_def requireVerification_def)

theorem non_owner_forbidden_witness:
  "protect sample_env [alice, bob, carol] (bearer bob) = Inr (bob\<lparr>password := None\<rparr>)
   \<and> userType (bob\<lparr>password := None\<rparr>) = ''service_provider''
   \<and> Service_findById sample_env [plumbing, tutoring] ''111111111111111111111111''
         = Inr (Some plumbing)
   \<and> provider plumbing \<noteq> user_id (bob\<lparr>password := None\<rparr>)
   \<and> delete_service sample_env [alice, bob, carol] (bearer bob) ''111111111111111111111111''
         [plumbing, tutoring] = (Inl Forbidden, [plumbing, tutoring])
   \<and> update_service sample_env [alice, bob, carol] (bearer bob) ''111111111111111111111111''
         [Tags [''pipes'']] [plumbing, tutoring] = (Inl Forbidden, [plumbing, tutoring])"
proof -
  have v: "update_valid [Tags [''pipes'']]"
    by (simp add: update_valid_def body_title_def body_description_def body_pricing_def
        member_def)
  have t: "userType (bob\<lparr>password := None\<rparr>) = ''service_provider''" by simp
  have p: "provider plumbing \<noteq> user_id (bob\<lparr>password := None\<rparr>)" by simp
  from non_owner_forbidden [OF protect_bob t find_plumbing p, of "[Tags [''pipes'']]"] v
  have "delete_service sample_env [alice, bob, carol] (bearer bob) ''111111111111111111111111''
         [plumbing, tutoring] = (Inl Forbidden, [plumbing, tutoring])
      \<and> update_service sample_env [alice, bob, carol] (bearer bob) ''111111111111111111111111''
         [Tags [''pipes'']] [plumbing, tutoring] = (Inl Forbidden, [plumbing, tutoring])"
    by simp
  with protect_bob t find_plumbing p show ?thesis by blast
qed

text \<open>
  Claim C5 as stated fails for an update whose payload fails validation: a verified
  provider who sends a three-character title for someone else's listing gets 400, not 403.
\<close>

theorem non_owner_invalid_payload:
  "update_service sample_env [alice, bob, carol] (bearer bob) ''111111111111111111111111''
      [Title ''abc''] [plumbing, tutoring] = (Inl ValidationError, [plumbing, tutoring])"
proof -
  have v: "\<not> update_valid [Title ''abc'']"
    by (simp add: update_valid_def body_title_def member_def trim_def isSpace_def)
  with protect_bob show ?thesis
    by (simp add: update_service_def provider_gate_def requireServiceProvider_def
        requireVerification_def)
qed

text \<open>
  Claim C8 at its failing input. Carol is a service provider who is not verified and
  owns the tutoring listing. Her \<open>PUT\<close> is refused with 403 by \<open>requireVerification\<close>,
  but her \<open>DELETE\<close> succeeds and removes the listing: the delete route does not have
  that middleware.
\<close>

theorem delete_skips_verification:
  "delete_service sample_env [alice, bob, carol] (bearer carol) ''222222222222222222222222''
      [plumbing, tutoring] = (Inr (), [plumbing])
   \<and> update_service sample_env [alice, bob, carol] (bearer carol) ''222222222222222222222222''
      [] [plumbing, tutoring] = (Inl Forbidden, [plumbing, tutoring])"
  using protect_carol find_tutoring
  by (simp add: delete_service_def update_service_def provider_gate_def
      requireServiceProvider_def requireVerification_def)

section \<open>The categories route\<close>

text \<open>
  Claim C7 at its failing input. \<open>GET /categories\<close> is dispatched to the handler of
  \<open>GET /:id\<close>, registered earlier, with \<open>categories\<close> as the id; the handler of the
  categories route is never reached. With an id that is no object id the lookup throws,
  and the answer is 500.
\<close>

theorem categories_route_shadowed:
  "dispatch GET [''categories''] = Some H_get
   \<and> serve E users fresh now
        \<lparr>r_verb = GET, r_path = [''categories''], r_credentials = c, r_query = q, r_body = b\<rparr> store
       = apfst (map_sum (\<lambda>e. e) Fetched) (get_service E users c ''categories'' store)
   \<and> serve sample_env users fresh now
        \<lparr>r_verb = GET, r_path = [''categories''], r_credentials = c, r_query = q, r_body = b\<rparr> store
       = (Inl ServerError, store)"
proof -
  have d: "dispatch GET [''categories''] = Some H_get"
    by (simp add: dispatch_def routes_def)
  have g: "get_service sample_env users c ''categories'' store = (Inl ServerError, store)"
    by (simp add: get_service_def Service_findById_def)
  from d g show ?thesis by (simp add: serve_def)
qed

section \<open>Bodies and assignments\<close>

lemma length_trim: "length (trim s) \<le> length s"
proof -
  have "length (dropWhile isSpace (rev (dropWhile isSpace s))) \<le> length (rev (dropWhile isSpace s))"
    by (rule length_dropWhile_le)
  also have "\<dots> \<le> length s" by (simp add: length_dropWhile_le)
  finally show ?thesis by (simp add: trim_def)
qed

lemma dropWhile_rev_dropWhile:
  assumes "xs = [] \<or> \<not> P (hd xs)"
  shows "dropWhile P (rev (dropWhile P (rev xs))) = rev (dropWhile P (rev xs))"
proof (cases "dropWhile P (rev xs) = []")
  case True
  show ?thesis unfolding True by simp
next
  case False
  then have ne: "xs \<noteq> []" by auto
  obtain ps where ps: "rev xs = ps @ dropWhile P (rev xs)"
    by (metis takeWhile_dropWhile_id)
  from False ps have "last (dropWhile P (rev xs)) = last (rev xs)"
    by (metis last_appendR)
  also have "\<dots> = hd xs" using ne by (simp add: last_rev)
  finally have "hd (rev (dropWhile P (rev xs))) = hd xs"
    using False by (simp add: hd_rev)
  with assms ne False show ?thesis
    by (simp add: dropWhile_eq_self_iff)
qed

lemma trim_idem: "trim (trim s) = trim s"
proof -
  let ?xs = "dropWhile isSpace s"
  have h: "?xs = [] \<or> \<not> isSpace (hd ?xs)"
    by (metis hd_dropWhile)
  have "dropWhile isSpace (trim s) = trim s"
    unfolding trim_def using h by (rule dropWhile_rev_dropWhile [of "dropWhile isSpace s" isSpace])
  then show ?thesis
    by (simp add: trim_def)
qed

lemma key_sanitize [simp]: "key (sanitize f) = key f"
  by (cases f) simp_all

lemma find_map_key:
  "find (\<lambda>f. key f = k) (map sanitize fs) = map_option sanitize (find (\<lambda>f. key f = k) fs)"
  by (induction fs) simp_all

lemma member_sanitize: "member (map sanitize fs) k = map_option sanitize (member fs k)"
  by (simp add: member_def rev_map find_map_key)

lemma member_snoc: "member (fs @ [f]) k = (if key f = k then Some f else member fs k)"
  by (simp add: member_def)

lemma member_Nil [simp]: "member [] k = None"
  by (simp add: member_def)

lemma find_filter_key:
  "find (\<lambda>f. key f = k) (filter (\<lambda>f. key f \<in> S) fs)
     = (if k \<in> S then find (\<lambda>f. key f = k) fs else None)"
  by (induction fs) auto

lemma member_filter:
  "member (filter (\<lambda>f. key f \<in> S) fs) k = (if k \<in> S then member fs k else None)"
  by (simp add: member_def rev_filter find_filter_key)

lemma fold_assign_snoc: "fold assign (fs @ [f]) d = assign f (fold assign fs d)"
  by simp

lemma service_id_assign [simp]: "service_id (assign f d) = service_id d"
  by (cases f) simp_all

lemma service_id_fold [simp]: "service_id (fold assign fs d) = service_id d"
  by (induction fs arbitrary: d) simp_all

lemma status_assign: "key f \<noteq> ''status'' \<Longrightarrow> status (assign f d) = status d"
  by (cases f) simp_all

lemma status_fold:
  "\<forall>f \<in> set fs. key f \<noteq> ''status'' \<Longrightarrow> status (fold assign fs d) = status d"
  by (induction fs arbitrary: d) (simp_all add: status_assign)

lemma title_fold:
  "title (fold assign fs d) = (case body_title fs of None \<Rightarrow> title d | Some t \<Rightarrow> trim t)"
proof (induction fs rule: rev_induct)
  case Nil
  then show ?case by (simp add: body_title_def)
next
  case (snoc f fs)
  then show ?case
    by (cases f) (simp_all add: body_title_def member_snoc)
qed

lemma description_fold:
  "description (fold assign fs d) = (case body_description fs of None \<Rightarrow> description d | Some t \<Rightarrow> t)"
proof (induction fs rule: rev_induct)
  case Nil
  then show ?case by (simp add: body_description_def)
next
  case (snoc f fs)
  then show ?case
    by (cases f) (simp_all add: body_description_def member_snoc)
qed

lemma category_fold:
  "category (fold assign fs d) = (case body_category fs of None \<Rightarrow> category d | Some t \<Rightarrow> t)"
proof (induction fs rule: rev_induct)
  case Nil
  then show ?case by (simp add: body_category_def)
next
  case (snoc f fs)
  then show ?case
    by (cases f) (simp_all add: body_category_def member_snoc)
qed

lemma pricing_fold:
  "pricing (fold assign fs d) = (case body_pricing fs of None \<Rightarrow> pricing d | Some t \<Rightarrow> t)"
proof (induction fs rule: rev_induct)
  case Nil
  then show ?case by (simp add: body_pricing_def)
next
  case (snoc f fs)
  then show ?case
    by (cases f) (simp_all add: body_pricing_def member_snoc)
qed

lemma body_title_sanitize: "body_title (map sanitize fs) = map_option trim (body_title fs)"
proof (cases "member fs ''title''")
  case None
  then show ?thesis by (simp add: body_title_def member_sanitize)
next
  case (Some f)
  then show ?thesis by (cases f) (simp_all add: body_title_def member_sanitize)
qed

lemma body_description_sanitize:
  "body_description (map sanitize fs) = map_option trim (body_description fs)"
proof (cases "member fs ''description''")
  case None
  then show ?thesis by (simp add: body_description_def member_sanitize)
next
  case (Some f)
  then show ?thesis by (cases f) (simp_all add: body_description_def member_sanitize)
qed

lemma member_key: "member fs k = Some f \<Longrightarrow> key f = k"
  by (auto simp: member_def find_Some_iff)

lemma body_category_sanitize: "body_category (map sanitize fs) = body_category fs"
proof (cases "member fs ''category''")
  case None
  then show ?thesis by (simp add: body_category_def member_sanitize)
next
  case (Some f)
  then show ?thesis by (cases f) (simp_all add: body_category_def member_sanitize)
qed

lemma body_pricing_sanitize: "body_pricing (map sanitize fs) = body_pricing fs"
proof (cases "member fs ''pricing''")
  case None
  then show ?thesis by (simp add: body_pricing_def member_sanitize)
next
  case (Some f)
  then show ?thesis by (cases f) (simp_all add: body_pricing_def member_sanitize)
qed

section \<open>Creating a listing\<close>

lemma schema_valid_iff:
  "schema_valid d =
     (schema_bounds d \<and> title d \<noteq> [] \<and> description d \<noteq> []
      \<and> category d \<in> set categories \<and> ptype (pricing d) \<in> set pricing_types
      \<and> status d \<in> set statuses)"
  by (auto simp: schema_valid_def schema_bounds_def)

lemma bounds_new: "schema_bounds (new_Service i now)"
  by (simp add: schema_bounds_def new_Service_def service_types_def currencies_def)

lemma bounds_assign:
  assumes "schema_bounds d" and "key f \<noteq> ''status'' \<longrightarrow> field_valid f"
  shows "schema_bounds (assign (sanitize f) d)"
proof (cases f)
  case (Title t)
  have "length (trim (trim t)) \<le> length (trim t)" by (rule length_trim)
  with assms Title show ?thesis by (simp add: schema_bounds_def)
next
  case (Description x)
  have "length (trim x) \<le> length x" by (rule length_trim)
  with assms Description show ?thesis by (simp add: schema_bounds_def)
qed (use assms in \<open>simp_all add: schema_bounds_def\<close>)

lemma bounds_fold:
  "schema_bounds d \<Longrightarrow> \<forall>f \<in> set fs. key f \<noteq> ''status'' \<longrightarrow> field_valid f \<Longrightarrow>
     schema_bounds (fold assign (map sanitize fs) d)"
  by (induction fs arbitrary: d) (simp_all add: bounds_assign)

lemma protect_alice:
  "protect sample_env [alice, bob, carol] (bearer alice) = Inr (alice\<lparr>password := None\<rparr>)"
  using User_findById_stored [OF users_ok_all, of alice]
  by (simp add: protect_def bearer_def request_token_def startsWith_def dot_token_def)

lemma trim_samples [simp]:
  "trim ''Pipe repair'' = ''Pipe repair''"
  "trim ''Pipe repairs'' = ''Pipe repairs''"
  "trim ''Repair of leaking pipes'' = ''Repair of leaking pipes''"
  by (simp_all add: trim_def isSpace_def)

lemma create_valid_offer:
  "create_valid (offer @ [Status ''active''])" "create_valid (offer @ [Duration 5])"
  by (simp_all add: create_valid_def offer_def body_title_def body_description_def
      body_category_def body_pricing_def body_serviceArea_def member_def categories_def
      pricing_types_def)

text \<open>
  Claim C2, as the code has it. The caller is authenticated with role
  \<open>service_provider\<close> and verified, the payload passes the route's validation, and every
  member of the payload other than a status passes the schema's validator for its path.
  Then the create route appends one new listing to the collection; its provider is the
  caller and its status is \<open>pending_review\<close>, whatever provider or status the payload
  carries.
\<close>

theorem create_persists:
  assumes auth: "protect E users req = Inr u"
    and role: "userType u = ''service_provider''"
    and verified: "userVerified u"
    and valid: "create_valid body"
    and schema: "\<forall>f \<in> set body. key f \<noteq> ''status'' \<longrightarrow> field_valid f"
  shows "\<exists>d. create_service E users req body fresh now store = (Inr d, store @ [d])
           \<and> provider d = user_id u \<and> status d = ''pending_review'' \<and> service_id d = fresh"
proof -
  let ?base = "fold assign (map sanitize body) (new_Service fresh now)"
  let ?doc = "fold assign (map sanitize body @ [Provider (user_id u), Status ''pending_review''])
              (new_Service fresh now)"
  have d: "?doc = ?base\<lparr>provider := user_id u, status := ''pending_review''\<rparr>" by simp
  have b0: "schema_bounds ?base" using bounds_new schema by (rule bounds_fold)
  from valid obtain t x c p where
    t: "body_title body = Some t" "5 \<le> length (trim t)" and
    x: "body_description body = Some x" "20 \<le> length (trim x)" and
    c: "body_category body = Some c" "c \<in> set categories" and
    p: "body_pricing body = Some p" "ptype p \<in> set pricing_types"
    by (auto simp: create_valid_def split: option.splits)
  have "title ?base = trim t"
    using t by (simp add: title_fold body_title_sanitize trim_idem)
  with t have 1: "title ?base \<noteq> []" by auto
  have "description ?base = trim x"
    using x by (simp add: description_fold body_description_sanitize)
  with x have 2: "description ?base \<noteq> []" by auto
  have 3: "category ?base \<in> set categories"
    using c by (simp add: category_fold body_category_sanitize)
  have 4: "ptype (pricing ?base) \<in> set pricing_types"
    using p by (simp add: pricing_fold body_pricing_sanitize)
  from b0 1 2 3 4 have sv: "schema_valid ?doc"
    unfolding d schema_valid_iff by (simp add: schema_bounds_def statuses_def)
  have gate: "provider_gate E users req = Inr u"
    using auth role verified
    by (simp add: provider_gate_def requireServiceProvider_def requireVerification_def)
  have "create_service E users req body fresh now store = (Inr ?doc, store @ [?doc])"
    using gate valid sv by (simp add: create_service_def Let_def del: fold_append)
  moreover have "provider ?doc = user_id u" "status ?doc = ''pending_review''" "service_id ?doc = fresh"
    by (simp_all add: new_Service_def)
  ultimately show ?thesis by blast
qed

theorem create_persists_witness:
  "protect sample_env [alice, bob, carol] (bearer alice) = Inr (alice\<lparr>password := None\<rparr>)
   \<and> userType (alice\<lparr>password := None\<rparr>) = ''service_provider''
   \<and> userVerified (alice\<lparr>password := None\<rparr>)
   \<and> create_valid (offer @ [Status ''active''])
   \<and> list_all (\<lambda>f. key f = ''status'' \<or> field_valid f) (offer @ [Status ''active''])
   \<and> map_sum (\<lambda>e. e) (\<lambda>d. (provider d, status d, service_id d))
        (fst (create_service sample_env [alice, bob, carol] (bearer alice)
               (offer @ [Status ''active'']) ''333333333333333333333333'' 7 [plumbing]))
       = Inr (''0123456789abcdef01234567'', ''pending_review'', ''333333333333333333333333'')"
proof -
  have t: "userType (alice\<lparr>password := None\<rparr>) = ''service_provider''" by simp
  have v: "userVerified (alice\<lparr>password := None\<rparr>)" by simp
  have s: "\<forall>f \<in> set (offer @ [Status ''active'']). key f \<noteq> ''status'' \<longrightarrow> field_valid f"
    by (simp add: offer_def categories_def pricing_types_def currencies_def)
  from create_persists [OF protect_alice t v create_valid_offer(1) s,
      of "''333333333333333333333333''" 7 "[plumbing]"]
  have "map_sum (\<lambda>e. e) (\<lambda>d. (provider d, status d, service_id d))
        (fst (create_service sample_env [alice, bob, carol] (bearer alice)
               (offer @ [Status ''active'']) ''333333333333333333333333'' 7 [plumbing]))
       = Inr (''0123456789abcdef01234567'', ''pending_review'', ''333333333333333333333333'')"
    by auto
  moreover from s
  have "list_all (\<lambda>f. key f = ''status'' \<or> field_valid f) (offer @ [Status ''active''])"
    unfolding list_all_iff by blast
  ultimately show ?thesis
    using protect_alice t v create_valid_offer(1) by blast
qed

text \<open>
  Claim C2 as stated fails for a payload that passes the route's validation and not the
  schema's: with a duration of 5 minutes (the schema asks for 15) \<open>save\<close> throws, the
  handler answers 500 and nothing is persisted.
\<close>

theorem create_rejected_by_schema:
  "protect sample_env [alice, bob, carol] (bearer alice) = Inr (alice\<lparr>password := None\<rparr>)
   \<and> userType (alice\<lparr>password := None\<rparr>) = ''service_provider''
   \<and> userVerified (alice\<lparr>password := None\<rparr>)
   \<and> create_valid (offer @ [Duration 5])
   \<and> create_service sample_env [alice, bob, carol] (bearer alice) (offer @ [Duration 5])
        ''333333333333333333333333'' 7 [plumbing] = (Inl ServerError, [plumbing])"
proof -
  have "\<not> schema_valid (fold assign
      (map sanitize (offer @ [Duration 5])
         @ [Provider (user_id (alice\<lparr>password := None\<rparr>)), Status ''pending_review''])
      (new_Service ''333333333333333333333333'' 7))"
    by (simp add: schema_valid_def offer_def new_Service_def)
  then have "create_service sample_env [alice, bob, carol] (bearer alice) (offer @ [Duration 5])
        ''333333333333333333333333'' 7 [plumbing] = (Inl ServerError, [plumbing])"
    using protect_alice create_valid_offer(2)
    by (simp add: create_service_def provider_gate_def requireServiceProvider_def
        requireVerification_def Let_def del: fold_append map_append)
  with protect_alice create_valid_offer(2) show ?thesis by simp
qed

section \<open>Updating a listing\<close>

lemma allowed_keys:
  "''title'' \<in> set allowedUpdates" "''description'' \<in> set allowedUpdates"
  "''pricing'' \<in> set allowedUpdates" "''status'' \<notin> set allowedUpdates"
  by (simp_all add: allowedUpdates_def)

lemma body_title_filter:
  "''title'' \<in> S \<Longrightarrow> body_title (filter (\<lambda>f. key f \<in> S) fs) = body_title fs"
  by (simp add: body_title_def member_filter)

lemma body_description_filter:
  "''description'' \<in> S \<Longrightarrow>
     body_description (filter (\<lambda>f. key f \<in> S) fs) = body_description fs"
  by (simp add: body_description_def member_filter)

lemma body_pricing_filter:
  "''pricing'' \<in> S \<Longrightarrow> body_pricing (filter (\<lambda>f. key f \<in> S) fs) = body_pricing fs"
  by (simp add: body_pricing_def member_filter)

text \<open>
  Claim C3. When the update route accepts an update, the listing existed, the answer is
  the stored listing after the update, and its status is \<open>pending_review\<close> if the payload
  has a title, a description or a pricing member, and the status it had before
  otherwise: a status member of the payload is never written.
\<close>

theorem update_forces_pending_review:
  assumes ok: "update_service E users req i body store = (Inr r, store')"
  shows "\<exists>d d'. Service_findById E store i = Inr (Some d) \<and> r = Some d'
           \<and> Service_findById E store' i = Inr (Some d')
           \<and> status d' =
               (if body_title body \<noteq> None \<or> body_description body \<noteq> None
                   \<or> body_pricing body \<noteq> None
                then ''pending_review'' else status d)"
proof -
  let ?upd = "filteredUpdates (map sanitize body)"
  let ?flt = "filter (\<lambda>f. key f \<in> set allowedUpdates) (map sanitize body)"
  from ok obtain u d where
    valid: "update_valid body" and
    found: "Service_findById E store i = Inr (Some d)" and
    upd: "findByIdAndUpdate E i ?upd store = Inr (r, store')"
    by (auto simp: update_service_def split: sum.splits if_splits option.splits prod.splits)
  from found have oid: "isObjectId E i" and f: "find (\<lambda>d. service_id d = i) store = Some d"
    by (auto simp: Service_findById_def split: if_splits)
  let ?d' = "fold assign ?upd d"
  from upd oid f have r: "r = Some ?d'" and s: "store' = replace i ?d' store"
    by (auto simp: findByIdAndUpdate_def Let_def split: if_splits)
  from f have "service_id d = i" by (auto simp: find_Some_iff)
  then have "find (\<lambda>d. service_id d = i) (replace i ?d' store) = Some ?d'"
    using f by (intro find_replace) simp_all
  with oid s have after: "Service_findById E store' i = Inr (Some ?d')"
    by (simp add: Service_findById_def)
  have bt: "body_title ?flt = map_option trim (body_title body)"
    by (simp add: body_title_filter allowed_keys body_title_sanitize)
  have bd: "body_description ?flt = map_option trim (body_description body)"
    by (simp add: body_description_filter allowed_keys body_description_sanitize)
  have bp: "body_pricing ?flt = body_pricing body"
    by (simp add: body_pricing_filter allowed_keys body_pricing_sanitize)
  have sig: "(truthy (body_title ?flt) \<or> truthy (body_description ?flt) \<or> body_pricing ?flt \<noteq> None)
      = (body_title body \<noteq> None \<or> body_description body \<noteq> None \<or> body_pricing body \<noteq> None)"
    using valid unfolding bt bd bp
    by (auto simp: update_valid_def split: option.splits)
  have keep: "\<forall>f \<in> set ?flt. key f \<noteq> ''status''"
    using allowed_keys(4) by auto
  have "status ?d' =
      (if body_title body \<noteq> None \<or> body_description body \<noteq> None \<or> body_pricing body \<noteq> None
       then ''pending_review'' else status d)"
  proof (cases "body_title body \<noteq> None \<or> body_description body \<noteq> None \<or> body_pricing body \<noteq> None")
    case True
    with sig have "?upd = ?flt @ [Status ''pending_review'']"
      by (simp add: filteredUpdates_def Let_def)
    with True show ?thesis by simp
  next
    case False
    with sig have "?upd = ?flt"
      by (simp add: filteredUpdates_def Let_def)
    with False keep show ?thesis by (simp add: status_fold)
  qed
  with found r after show ?thesis by blast
qed


theorem update_forces_pending_review_witness:
  "update_service sample_env [alice, bob, carol] (bearer alice) ''111111111111111111111111''
      [Title ''Pipe repairs'', Status ''suspended''] [plumbing, tutoring]
     = (Inr (Some (plumbing\<lparr>title := ''Pipe repairs'', status := ''pending_review''\<rparr>)),
        [plumbing\<lparr>title := ''Pipe repairs'', status := ''pending_review''\<rparr>, tutoring])
   \<and> status (plumbing\<lparr>title := ''Pipe repairs'', status := ''pending_review''\<rparr>)
       = ''pending_review''"
proof -
  have v: "update_valid [Title ''Pipe repairs'', Status ''suspended'']"
    by (simp add: update_valid_def body_title_def body_description_def body_pricing_def
        member_def)
  have f: "filteredUpdates [Title ''Pipe repairs'', Status ''suspended'']
      = [Title ''Pipe repairs'', Status ''pending_review'']"
    by (simp add: filteredUpdates_def allowedUpdates_def body_title_def member_def)
  have u: "update_service sample_env [alice, bob, carol] (bearer alice) ''111111111111111111111111''
      [Title ''Pipe repairs'', Status ''suspended''] [plumbing, tutoring]
     = (Inr (Some (plumbing\<lparr>title := ''Pipe repairs'', status := ''pending_review''\<rparr>)),
        [plumbing\<lparr>title := ''Pipe repairs'', status := ''pending_review''\<rparr>, tutoring])"
    using protect_alice find_plumbing v
    by (simp add: update_service_def provider_gate_def requireServiceProvider_def
        requireVerification_def f findByIdAndUpdate_def statuses_def Let_def)
  from update_forces_pending_review [OF u] u show ?thesis by simp
qed

section \<open>Sorting by a sort object\<close>

subsection \<open>Comparators\<close>

lemma comparatorI:
  assumes "\<And>a b. c b a = opposite (c a b)"
    and "\<And>a b z. c a b = EQ \<Longrightarrow> c a z = c b z"
    and "\<And>a b z. c a b = LT \<Longrightarrow> c b z = LT \<Longrightarrow> c a z = LT"
  shows "comparator c"
  using assms unfolding comparator_def by blast

lemma comparator_sym: "comparator c \<Longrightarrow> c b a = opposite (c a b)"
  unfolding comparator_def by blast

lemma comparator_EQ: "comparator c \<Longrightarrow> c a b = EQ \<Longrightarrow> c a z = c b z"
  unfolding comparator_def by blast

lemma comparator_LT: "comparator c \<Longrightarrow> c a b = LT \<Longrightarrow> c b z = LT \<Longrightarrow> c a z = LT"
  unfolding comparator_def by blast

lemma comparator_EQ_right:
  assumes "comparator c" and "c b z = EQ"
  shows "c a b = c a z"
proof -
  from assms have "c b a = c z a" by (rule comparator_EQ)
  then have "opposite (c a b) = opposite (c a z)"
    using comparator_sym [OF assms(1)] by metis
  then show ?thesis by (cases "c a b"; cases "c a z") simp_all
qed

lemma comparator_le_trans:
  assumes c: "comparator c" and ab: "c a b \<noteq> GT" and bz: "c b z \<noteq> GT"
  shows "c a z \<noteq> GT"
proof (cases "c a b")
  case EQ
  with comparator_EQ [OF c EQ, of z] bz show ?thesis by simp
next
  case LT
  show ?thesis
  proof (cases "c b z")
    case EQ
    with comparator_EQ_right [OF c EQ, of a] LT show ?thesis by simp
  next
    case LT': LT
    with comparator_LT [OF c LT LT'] show ?thesis by simp
  next
    case GT
    with bz show ?thesis by simp
  qed
next
  case GT
  with ab show ?thesis by simp
qed

lemma comparator_total:
  assumes "comparator c" and "c a b = GT"
  shows "c b a \<noteq> GT"
  using comparator_sym [OF assms(1), of b a] assms(2) by simp

lemma comparator_compare: "comparator (\<lambda>a b. compare (k a) (k b))"
  by (rule comparatorI) (auto simp: compare_def split: if_splits)

lemma compare_option_EQ: "(compare_option x y = EQ) = (x = y)"
  by (cases x; cases y) (simp_all add: compare_def)

lemma comparator_compare_option: "comparator (\<lambda>a b. compare_option (k a) (k b))"
proof (rule comparatorI)
  fix a b show "compare_option (k b) (k a) = opposite (compare_option (k a) (k b))"
    by (cases "k a"; cases "k b") (auto simp: compare_def)
next
  fix a b z assume "compare_option (k a) (k b) = EQ"
  then have "k a = k b" by (simp add: compare_option_EQ)
  then show "compare_option (k a) (k z) = compare_option (k b) (k z)" by simp
next
  fix a b z assume "compare_option (k a) (k b) = LT" "compare_option (k b) (k z) = LT"
  then show "compare_option (k a) (k z) = LT"
    by (cases "k a"; cases "k b"; cases "k z") (auto simp: compare_def split: if_splits)
qed

lemma comparator_compare_on: "comparator (compare_on p)"
proof (cases p)
  case P_amount
  have "compare_on P_amount = (\<lambda>a b. compare (amount (pricing a)) (amount (pricing b)))"
    by (intro ext) simp
  with P_amount show ?thesis by (simp add: comparator_compare)
next
  case P_rating
  have "compare_on P_rating = (\<lambda>a b. compare (ratingAverage a) (ratingAverage b))"
    by (intro ext) simp
  with P_rating show ?thesis by (simp add: comparator_compare)
next
  case P_createdAt
  have "compare_on P_createdAt = (\<lambda>a b. compare (createdAt a) (createdAt b))"
    by (intro ext) simp
  with P_createdAt show ?thesis by (simp add: comparator_compare)
next
  case P_featuredUntil
  have "compare_on P_featuredUntil = (\<lambda>a b. compare_option (featuredUntil a) (featuredUntil b))"
    by (intro ext) simp
  with P_featuredUntil show ?thesis by (simp add: comparator_compare_option)
next
  case P_isFeatured
  have "compare_on P_isFeatured = (\<lambda>a b. compare (isFeatured a) (isFeatured b))"
    by (intro ext) simp
  with P_isFeatured show ?thesis by (simp add: comparator_compare)
qed

lemma comparator_swap: "comparator c \<Longrightarrow> comparator (\<lambda>a b. c b a)"
proof (rule comparatorI)
  fix a b assume c: "comparator c"
  show "c a b = opposite (c b a)" by (rule comparator_sym [OF c])
next
  fix a b z assume c: "comparator c" and "c b a = EQ"
  then show "c z a = c z b" using comparator_EQ_right [OF c, of b a z] by simp
next
  fix a b z assume c: "comparator c" and "c b a = LT" "c z b = LT"
  then show "c z a = LT" using comparator_LT [OF c, of z b a] by simp
qed

lemma comparator_lex:
  assumes c: "comparator c" and d: "comparator d"
  shows "comparator (\<lambda>a b. case c a b of EQ \<Rightarrow> d a b | r \<Rightarrow> r)"
proof (rule comparatorI)
  fix a b
  show "(case c b a of EQ \<Rightarrow> d b a | r \<Rightarrow> r) = opposite (case c a b of EQ \<Rightarrow> d a b | r \<Rightarrow> r)"
    using comparator_sym [OF c, of b a] comparator_sym [OF d, of b a]
    by (cases "c a b") simp_all
next
  fix a b z assume "(case c a b of EQ \<Rightarrow> d a b | r \<Rightarrow> r) = EQ"
  then have "c a b = EQ" "d a b = EQ" by (cases "c a b"; simp)+
  then show "(case c a z of EQ \<Rightarrow> d a z | r \<Rightarrow> r) = (case c b z of EQ \<Rightarrow> d b z | r \<Rightarrow> r)"
    using comparator_EQ [OF c, of a b z] comparator_EQ [OF d, of a b z]
    by (cases "c b z") simp_all
next
  fix a b z
  assume 1: "(case c a b of EQ \<Rightarrow> d a b | r \<Rightarrow> r) = LT"
    and 2: "(case c b z of EQ \<Rightarrow> d b z | r \<Rightarrow> r) = LT"
  show "(case c a z of EQ \<Rightarrow> d a z | r \<Rightarrow> r) = LT"
  proof (cases "c a b")
    case EQ
    with 1 have dab: "d a b = LT" by simp
    from comparator_EQ [OF c EQ, of z] have caz: "c a z = c b z" .
    show ?thesis
    proof (cases "c b z")
      case EQ
      with 2 have "d b z = LT" by simp
      with comparator_LT [OF d dab] caz EQ show ?thesis by simp
    next
      case LT
      with caz show ?thesis by simp
    next
      case GT
      with 2 show ?thesis by simp
    qed
  next
    case LT
    show ?thesis
    proof (cases "c b z")
      case EQ
      with comparator_EQ_right [OF c EQ, of a] LT show ?thesis by simp
    next
      case LT': LT
      with comparator_LT [OF c LT LT'] show ?thesis by simp
    next
      case GT
      with 2 show ?thesis by simp
    qed
  next
    case GT
    with 1 show ?thesis by simp
  qed
qed

lemma comparator_compare_by: "comparator (compare_by spec)"
proof (induction spec)
  case Nil
  have "compare_by [] = (\<lambda>a b. EQ)" by (intro ext) simp
  then show ?case by (simp add: comparator_def)
next
  case (Cons pd spec)
  obtain p dir where pd: "pd = (p, dir)" by (cases pd)
  let ?c = "if dir < 0 then (\<lambda>a b. compare_on p b a) else compare_on p"
  have c: "comparator ?c"
    using comparator_compare_on [of p] by (simp add: comparator_swap)
  have "compare_by (pd # spec) = (\<lambda>a b. case ?c a b of EQ \<Rightarrow> compare_by spec a b | r \<Rightarrow> r)"
    unfolding pd by (intro ext) simp
  with comparator_lex [OF c Cons.IH] show ?case by simp
qed

subsection \<open>Sorting\<close>

lemma set_insert_sorted [simp]: "set (insert_sorted spec x ys) = insert x (set ys)"
  by (induction ys) auto

lemma set_sort_docs [simp]: "set (sort_docs spec ds) = set ds"
  unfolding sort_docs_def by (induction ds) simp_all

lemma length_insert_sorted [simp]: "length (insert_sorted spec x ys) = Suc (length ys)"
  by (induction ys) auto

lemma length_sort_docs [simp]: "length (sort_docs spec ds) = length ds"
  unfolding sort_docs_def by (induction ds) simp_all

lemma sorted_insert_sorted:
  assumes "sorted_wrt (\<lambda>a b. compare_by spec a b \<noteq> GT) ys"
  shows "sorted_wrt (\<lambda>a b. compare_by spec a b \<noteq> GT) (insert_sorted spec x ys)"
  using assms
proof (induction ys)
  case Nil
  then show ?case by simp
next
  case (Cons y ys)
  note c = comparator_compare_by [of spec]
  show ?case
  proof (cases "compare_by spec x y = GT")
    case True
    then have "compare_by spec y x \<noteq> GT" by (rule comparator_total [OF c])
    with True Cons show ?thesis by auto
  next
    case False
    have "\<forall>z \<in> set ys. compare_by spec x z \<noteq> GT"
    proof
      fix z assume "z \<in> set ys"
      with Cons.prems have "compare_by spec y z \<noteq> GT" by simp
      with False show "compare_by spec x z \<noteq> GT" by (rule comparator_le_trans [OF c])
    qed
    with False Cons.prems show ?thesis by simp
  qed
qed

lemma sorted_sort_docs: "sorted_wrt (\<lambda>a b. compare_by spec a b \<noteq> GT) (sort_docs spec ds)"
  unfolding sort_docs_def by (induction ds) (simp_all add: sorted_insert_sorted)

section \<open>Listing services\<close>

lemma truthy_iff: "truthy x = (\<exists>s. x = Some s \<and> s \<noteq> [])"
  by (cases x) simp_all

lemma holds_cast:
  "cast_opt f (if truthy x then x else None) = Some y \<Longrightarrow> holds y P \<Longrightarrow>
     (if truthy x then (case Option.bind x f of None \<Rightarrow> False | Some v \<Rightarrow> P v) else True)"
  by (cases x) (auto split: if_splits)

lemma build_filter_simps [simp]:
  "f_status (build_filter q) = ''active''"
  "f_isVerified (build_filter q) = True"
  "f_category (build_filter q) = (if truthy (q_category q) then q_category q else None)"
  "f_cities (build_filter q) = (if truthy (q_city q) then q_city q else None)"
  "f_gte (build_filter q) = (if truthy (q_minPrice q) then q_minPrice q else None)"
  "f_lte (build_filter q) = (if truthy (q_maxPrice q) then q_maxPrice q else None)"
  "f_rating (build_filter q) = (if truthy (q_rating q) then q_rating q else None)"
  "f_isFeatured (build_filter q) = None"
  by (simp_all add: build_filter_def)

lemma cast_filter_Some:
  assumes "cast_filter E flt = Some m"
  obtains city gte lte rating where
    "cast_opt (regexTest E) (f_cities flt) = Some city"
    "cast_opt (toNumber E) (f_gte flt) = Some gte"
    "cast_opt (toNumber E) (f_lte flt) = Some lte"
    "cast_opt (toNumber E) (f_rating flt) = Some rating"
    "m = (\<lambda>d. status d = f_status flt
                   \<and> isVerified d = f_isVerified flt
                   \<and> holds (f_category flt) (\<lambda>c. category d = c)
                   \<and> holds city (\<lambda>test. list_ex test (cities (serviceArea d)))
                   \<and> holds gte (\<lambda>v. v \<le> amount (pricing d))
                   \<and> holds lte (\<lambda>v. amount (pricing d) \<le> v)
                   \<and> holds rating (\<lambda>v. v \<le> ratingAverage d)
                   \<and> holds (f_isFeatured flt) (\<lambda>b. isFeatured d = b))"
  using assms unfolding cast_filter_def
  by (simp split: prod.splits option.splits)

lemma cast_filter_satisfies:
  assumes c: "cast_filter E ((build_filter q)\<lparr>f_isFeatured := Some b\<rparr>) = Some m" and m: "m d"
  shows "satisfies (regexTest E) E q d \<and> isFeatured d = b"
proof -
  let ?flt = "(build_filter q)\<lparr>f_isFeatured := Some b\<rparr>"
  from c obtain city gte lte rating where
    1: "cast_opt (regexTest E) (f_cities ?flt) = Some city" and
    2: "cast_opt (toNumber E) (f_gte ?flt) = Some gte" and
    3: "cast_opt (toNumber E) (f_lte ?flt) = Some lte" and
    4: "cast_opt (toNumber E) (f_rating ?flt) = Some rating" and
    5: "m = (\<lambda>d. status d = f_status ?flt
                   \<and> isVerified d = f_isVerified ?flt
                   \<and> holds (f_category ?flt) (\<lambda>c. category d = c)
                   \<and> holds city (\<lambda>test. list_ex test (cities (serviceArea d)))
                   \<and> holds gte (\<lambda>v. v \<le> amount (pricing d))
                   \<and> holds lte (\<lambda>v. amount (pricing d) \<le> v)
                   \<and> holds rating (\<lambda>v. v \<le> ratingAverage d)
                   \<and> holds (f_isFeatured ?flt) (\<lambda>b. isFeatured d = b))"
    by (rule cast_filter_Some)
  from m 5 have
    a: "status d = ''active''" "isVerified d" "isFeatured d = b" and
    cat: "holds (if truthy (q_category q) then q_category q else None) (\<lambda>c. category d = c)" and
    h1: "holds city (\<lambda>test. list_ex test (cities (serviceArea d)))" and
    h2: "holds gte (\<lambda>v. v \<le> amount (pricing d))" and
    h3: "holds lte (\<lambda>v. amount (pricing d) \<le> v)" and
    h4: "holds rating (\<lambda>v. v \<le> ratingAverage d)"
    by simp_all
  from cat have c0: "if truthy (q_category q) then q_category q = Some (category d) else True"
    by (cases "q_category q") (auto split: if_splits)
  from 1 have "cast_opt (regexTest E) (if truthy (q_city q) then q_city q else None) = Some city"
    by simp
  from holds_cast [OF this h1] have c1: "if truthy (q_city q)
          then (case Option.bind (q_city q) (regexTest E) of
                  None \<Rightarrow> False | Some test \<Rightarrow> list_ex test (cities (serviceArea d)))
          else True" .
  from 2 have "cast_opt (toNumber E) (if truthy (q_minPrice q) then q_minPrice q else None) = Some gte"
    by simp
  from holds_cast [OF this h2] have c2: "if truthy (q_minPrice q)
          then (case Option.bind (q_minPrice q) (toNumber E) of
                  None \<Rightarrow> False | Some v \<Rightarrow> v \<le> amount (pricing d))
          else True" .
  from 3 have "cast_opt (toNumber E) (if truthy (q_maxPrice q) then q_maxPrice q else None) = Some lte"
    by simp
  from holds_cast [OF this h3] have c3: "if truthy (q_maxPrice q)
          then (case Option.bind (q_maxPrice q) (toNumber E) of
                  None \<Rightarrow> False | Some v \<Rightarrow> amount (pricing d) \<le> v)
          else True" .
  from 4 have "cast_opt (toNumber E) (if truthy (q_rating q) then q_rating q else None) = Some rating"
    by simp
  from holds_cast [OF this h4] have c4: "if truthy (q_rating q)
          then (case Option.bind (q_rating q) (toNumber E) of
                  None \<Rightarrow> False | Some v \<Rightarrow> v \<le> ratingAverage d)
          else True" .
  from a c0 c1 c2 c3 c4 show ?thesis
    unfolding satisfies_def by blast
qed

lemma incrementViewCount_simps [simp]:
  "status (incrementViewCount d) = status d"
  "isVerified (incrementViewCount d) = isVerified d"
  "category (incrementViewCount d) = category d"
  "serviceArea (incrementViewCount d) = serviceArea d"
  "pricing (incrementViewCount d) = pricing d"
  "ratingAverage (incrementViewCount d) = ratingAverage d"
  "isFeatured (incrementViewCount d) = isFeatured d"
  "featuredUntil (incrementViewCount d) = featuredUntil d"
  "service_id (incrementViewCount d) = service_id d"
  by (simp_all add: incrementViewCount_def)

lemma satisfies_incrementViewCount [simp]:
  "satisfies t E q (incrementViewCount d) = satisfies t E q d"
  unfolding satisfies_def incrementViewCount_simps by (rule refl)

lemma cursor_limit_subset: "cursor_limit n ds = Inr rs \<Longrightarrow> set rs \<subseteq> set ds"
  by (auto simp: cursor_limit_def split: option.splits if_splits dest: in_set_takeD)

lemma cursor_skip_subset: "cursor_skip n ds = Inr rs \<Longrightarrow> set rs \<subseteq> set ds"
  by (auto simp: cursor_skip_def split: option.splits if_splits dest: in_set_dropD)

lemma cursor_limit_length:
  "cursor_limit (Some n) ds = Inr rs \<Longrightarrow> 0 < n \<Longrightarrow> int (length rs) \<le> n"
  by (auto simp: cursor_limit_def split: if_splits)

lemma cursor_limit_sorted:
  "cursor_limit n ds = Inr rs \<Longrightarrow> sorted_wrt R ds \<Longrightarrow> sorted_wrt R rs"
  by (auto simp: cursor_limit_def sorted_wrt_take split: option.splits if_splits)

lemma featured_matches:
  assumes "featuredServices E q store = Inr fs" and "d \<in> set fs"
  shows "satisfies (regexTest E) E q d \<and> isFeatured d"
proof -
  from assms(1) obtain m where
    m: "cast_filter E ((build_filter q)\<lparr>f_isFeatured := Some True\<rparr>) = Some m" and
    l: "cursor_limit (limit_of q)
          (sort_docs ((P_featuredUntil, - 1) # sortObj (sort_of q)) (filter m store)) = Inr fs"
    by (auto simp: featuredServices_def Service_find_def split: option.splits sum.splits)
  from cursor_limit_subset [OF l] assms(2) have "m d" by auto
  with cast_filter_satisfies [OF m] show ?thesis by simp
qed

lemma regular_matches:
  assumes "regularServices E q store = Inr rs" and "d \<in> set rs"
  shows "satisfies (regexTest E) E q d \<and> \<not> isFeatured d"
proof -
  from assms(1) obtain m ds where
    m: "cast_filter E ((build_filter q)\<lparr>f_isFeatured := Some False\<rparr>) = Some m" and
    s: "cursor_skip (skip_of q) (sort_docs (sortObj (sort_of q)) (filter m store)) = Inr ds" and
    l: "cursor_limit (limit_of q) ds = Inr rs"
    by (auto simp: regularServices_def Service_find_def split: option.splits sum.splits)
  from cursor_limit_subset [OF l] cursor_skip_subset [OF s] assms(2) have "m d" by auto
  with cast_filter_satisfies [OF m] show ?thesis by simp
qed

lemma list_services_parts:
  assumes "list_services E users req q store = (Inr pg, store')"
  shows "\<exists>fs rs. featuredServices E q store = Inr fs \<and> regularServices E q store = Inr rs
           \<and> services pg = map incrementViewCount (fs @ rs)"
  using assms
  by (auto simp: list_services_def Let_def split: sum.splits option.splits prod.splits)

lemma list_services_error:
  "fst (list_services E users req q store) = Inl e \<Longrightarrow> e = ServerError"
  by (auto simp: list_services_def Let_def split: sum.splits option.splits prod.splits)

lemma featured_order:
  "(compare_by ((P_featuredUntil, - 1) # s) a b \<noteq> GT)
     = (compare_option (featuredUntil b) (featuredUntil a) = LT
        \<or> (featuredUntil a = featuredUntil b \<and> compare_by s a b \<noteq> GT))"
proof -
  have e: "(featuredUntil a = featuredUntil b)
      = (compare_option (featuredUntil b) (featuredUntil a) = EQ)"
    by (auto simp: compare_option_EQ)
  show ?thesis
    unfolding e by (cases "compare_option (featuredUntil b) (featuredUntil a)") simp_all
qed

lemma sortObj_default:
  "s \<notin> set [''price_asc'', ''price_desc'', ''rating_desc'', ''oldest''] \<Longrightarrow>
     sortObj s = sortObj ''newest''"
  by (simp add: sortObj_def)

lemma holds_cast_conv:
  "cast_opt f (if truthy x then x else None) = Some y \<Longrightarrow>
     (if truthy x then (case Option.bind x f of None \<Rightarrow> False | Some v \<Rightarrow> P v) else True) \<Longrightarrow>
     holds y P"
  by (cases x) (auto split: if_splits)

lemma cast_filter_iff:
  assumes c: "cast_filter E ((build_filter q)\<lparr>f_isFeatured := Some b\<rparr>) = Some m"
  shows "m d = (satisfies (regexTest E) E q d \<and> isFeatured d = b)"
proof
  assume "m d"
  with c show "satisfies (regexTest E) E q d \<and> isFeatured d = b"
    by (rule cast_filter_satisfies)
next
  assume s: "satisfies (regexTest E) E q d \<and> isFeatured d = b"
  let ?flt = "(build_filter q)\<lparr>f_isFeatured := Some b\<rparr>"
  from c obtain city gte lte rating where
    1: "cast_opt (regexTest E) (f_cities ?flt) = Some city" and
    2: "cast_opt (toNumber E) (f_gte ?flt) = Some gte" and
    3: "cast_opt (toNumber E) (f_lte ?flt) = Some lte" and
    4: "cast_opt (toNumber E) (f_rating ?flt) = Some rating" and
    5: "m = (\<lambda>d. status d = f_status ?flt
                   \<and> isVerified d = f_isVerified ?flt
                   \<and> holds (f_category ?flt) (\<lambda>c. category d = c)
                   \<and> holds city (\<lambda>test. list_ex test (cities (serviceArea d)))
                   \<and> holds gte (\<lambda>v. v \<le> amount (pricing d))
                   \<and> holds lte (\<lambda>v. amount (pricing d) \<le> v)
                   \<and> holds rating (\<lambda>v. v \<le> ratingAverage d)
                   \<and> holds (f_isFeatured ?flt) (\<lambda>b. isFeatured d = b))"
    by (rule cast_filter_Some)
  from s have
    a: "status d = ''active''" "isVerified d" "isFeatured d = b" and
    c0: "if truthy (q_category q) then q_category q = Some (category d) else True" and
    c1: "if truthy (q_city q)
          then (case Option.bind (q_city q) (regexTest E) of
                  None \<Rightarrow> False | Some test \<Rightarrow> list_ex test (cities (serviceArea d)))
          else True" and
    c2: "if truthy (q_minPrice q)
          then (case Option.bind (q_minPrice q) (toNumber E) of
                  None \<Rightarrow> False | Some v \<Rightarrow> v \<le> amount (pricing d))
          else True" and
    c3: "if truthy (q_maxPrice q)
          then (case Option.bind (q_maxPrice q) (toNumber E) of
                  None \<Rightarrow> False | Some v \<Rightarrow> amount (pricing d) \<le> v)
          else True" and
    c4: "if truthy (q_rating q)
          then (case Option.bind (q_rating q) (toNumber E) of
                  None \<Rightarrow> False | Some v \<Rightarrow> v \<le> ratingAverage d)
          else True"
    unfolding satisfies_def by blast+
  from c0 have cat: "holds (if truthy (q_category q) then q_category q else None) (\<lambda>c. category d = c)"
    by (cases "q_category q") (auto split: if_splits)
  from 1 have "cast_opt (regexTest E) (if truthy (q_city q) then q_city q else None) = Some city"
    by simp
  from holds_cast_conv [OF this c1]
  have h1: "holds city (\<lambda>test. list_ex test (cities (serviceArea d)))" .
  from 2 have "cast_opt (toNumber E) (if truthy (q_minPrice q) then q_minPrice q else None) = Some gte"
    by simp
  from holds_cast_conv [OF this c2] have h2: "holds gte (\<lambda>v. v \<le> amount (pricing d))" .
  from 3 have "cast_opt (toNumber E) (if truthy (q_maxPrice q) then q_maxPrice q else None) = Some lte"
    by simp
  from holds_cast_conv [OF this c3] have h3: "holds lte (\<lambda>v. amount (pricing d) \<le> v)" .
  from 4 have "cast_opt (toNumber E) (if truthy (q_rating q) then q_rating q else None) = Some rating"
    by simp
  from holds_cast_conv [OF this c4] have h4: "holds rating (\<lambda>v. v \<le> ratingAverage d)" .
  from a cat h1 h2 h3 h4 show "m d"
    unfolding 5 by simp
qed

lemma cast_filter_isFeatured:
  "(cast_filter E (flt\<lparr>f_isFeatured := x\<rparr>) = None) = (cast_filter E flt = None)"
  by (simp add: cast_filter_def split: prod.splits option.splits)

lemma Service_find_filter:
  assumes "cast_filter E (build_filter q) \<noteq> None"
  shows "Service_find E ((build_filter q)\<lparr>f_isFeatured := Some b\<rparr>) store
           = Inr (filter (\<lambda>d. satisfies (regexTest E) E q d \<and> isFeatured d = b) store)"
proof -
  from assms obtain m where
    m: "cast_filter E ((build_filter q)\<lparr>f_isFeatured := Some b\<rparr>) = Some m"
    using cast_filter_isFeatured [where E = E and flt = "build_filter q" and x = "Some b"] by auto
  have "filter m store = filter (\<lambda>d. satisfies (regexTest E) E q d \<and> isFeatured d = b) store"
    by (rule filter_cong) (simp_all add: cast_filter_iff [OF m])
  with m show ?thesis by (simp add: Service_find_def)
qed

lemma Service_find_fails:
  assumes "cast_filter E (build_filter q) = None"
  shows "Service_find E ((build_filter q)\<lparr>f_isFeatured := x\<rparr>) store = Inl ServerError"
  using assms cast_filter_isFeatured [where E = E and flt = "build_filter q" and x = x]
  by (simp add: Service_find_def)

lemma list_services_page:
  assumes n: "limit_of q = Some n" "0 < n" and p: "page_of q = Some p" "1 \<le> p"
    and c: "cast_filter E (build_filter q) \<noteq> None"
  shows "fst (list_services E users req q store) =
     Inr \<lparr>services = map incrementViewCount
              (take (nat n)
                 (sort_docs ((P_featuredUntil, - 1) # sortObj (sort_of q))
                    (filter (\<lambda>d. satisfies (regexTest E) E q d \<and> isFeatured d) store))
               @ take (nat n) (drop (nat ((p - 1) * n))
                   (sort_docs (sortObj (sort_of q))
                      (filter (\<lambda>d. satisfies (regexTest E) E q d \<and> \<not> isFeatured d) store)))),
           currentPage = p,
           totalServices =
             length (filter (\<lambda>d. satisfies (regexTest E) E q d \<and> \<not> isFeatured d) store)
             + min (nat n)
                 (length (filter (\<lambda>d. satisfies (regexTest E) E q d \<and> isFeatured d) store)),
           hasPrevPage = (1 < p)\<rparr>"
proof -
  let ?F = "filter (\<lambda>d. satisfies (regexTest E) E q d \<and> isFeatured d) store"
  let ?R = "filter (\<lambda>d. satisfies (regexTest E) E q d \<and> \<not> isFeatured d) store"
  have ff: "Service_find E ((build_filter q)\<lparr>f_isFeatured := Some True\<rparr>) store = Inr ?F"
    using Service_find_filter [OF c, of True store] by simp
  have fr: "Service_find E ((build_filter q)\<lparr>f_isFeatured := Some False\<rparr>) store = Inr ?R"
    using Service_find_filter [OF c, of False store] by simp
  from n have f: "featuredServices E q store
      = Inr (take (nat n) (sort_docs ((P_featuredUntil, - 1) # sortObj (sort_of q)) ?F))"
    by (simp add: featuredServices_def ff cursor_limit_def)
  from n p have "0 \<le> (p - 1) * n" by (intro mult_nonneg_nonneg) simp_all
  then have nn: "\<not> (p - 1) * n < 0" by linarith
  from n p have "skip_of q = Some ((p - 1) * n)" by (simp add: skip_of_def)
  note sk = this nn
  from n sk have r: "regularServices E q store
      = Inr (take (nat n) (drop (nat ((p - 1) * n)) (sort_docs (sortObj (sort_of q)) ?R)))"
    by (simp add: regularServices_def fr cursor_limit_def cursor_skip_def)
  have cnt: "countDocuments E ((build_filter q)\<lparr>f_isFeatured := Some False\<rparr>) store
      = Inr (length ?R)"
    by (simp add: countDocuments_def fr)
  show ?thesis
    by (simp add: list_services_def f r cnt p Let_def)
qed

lemma list_services_negative_skip:
  assumes "limit_of q = Some n" and "page_of q = Some p" and "(p - 1) * n < 0"
  shows "list_services E users req q store = (Inl ServerError, store)"
proof -
  from assms have sk: "skip_of q = Some ((p - 1) * n)" by (simp add: skip_of_def)
  have "\<exists>e. regularServices E q store = Inl e"
    using sk assms(3)
    by (simp add: regularServices_def cursor_skip_def split: sum.splits)
  then show ?thesis
    by (auto simp: list_services_def split: sum.splits)
qed

lemma list_services_cast_fails:
  assumes "cast_filter E (build_filter q) = None"
  shows "list_services E users req q store = (Inl ServerError, store)"
  using Service_find_fails [OF assms, of "Some True" store]
  by (simp add: list_services_def featuredServices_def)

section \<open>The list route\<close>

lemma parse_samples [simp]:
  "parseInt ''100'' = Some 100" "parseInt ''0'' = Some 0" "parseInt ''1'' = Some 1"
  "isInt ''100'' = Some 100" "isInt ''-5'' = Some (- 5)" "isInt ''0'' = Some 0"
  by (simp_all add: parseInt_def isInt_def isDigit_def digit_def charCode_def startsWith_def
      isSpace_def Let_def)

lemma decimal_samples [simp]:
  "decimal ''100'' = Some 100" "decimal ''-5'' = Some (- 5)"
  by (simp_all add: decimal_def)

lemma no_query_simps [simp]:
  "q_category no_query = None" "q_city no_query = None" "q_minPrice no_query = None"
  "q_maxPrice no_query = None" "q_rating no_query = None" "q_page no_query = None"
  "q_limit no_query = None" "q_sort no_query = None"
  by (simp_all add: no_query_def)

lemma search_dot: "search ''.'' ''Oslo''" "search ''os'' ''Oslo''"
  by (simp_all add: toLower_def)

lemma dotted_samples [simp]:
  "dotted ''.'' = Some (search ''.'')" "dotted ''os'' = Some (search ''os'')"
  by (simp_all add: dotted_def)

lemma not_includes_dot: "\<not> includes_ci ''.'' ''Oslo''"
  by (simp add: startsWith_def toLower_def)

lemma plumbing_fields [simp]:
  "isFeatured plumbing = False" "featuredUntil plumbing = None"
  "cities (serviceArea plumbing) = [''Oslo'']" "amount (pricing plumbing) = 500"
  "ratingAverage plumbing = 0" "category plumbing = ''home_services''"
  "createdAt plumbing = 100"
  by (simp_all add: plumbing_def new_Service_def)

lemma featured_dot:
  "featuredServices sample_env (no_query\<lparr>q_city := Some ''.''\<rparr>) [plumbing] = Inr []"
  by (simp add: featuredServices_def Service_find_def cast_filter_def build_filter_def
      cursor_limit_def limit_of_def sort_docs_def)

lemma regular_dot:
  "regularServices sample_env (no_query\<lparr>q_city := Some ''.''\<rparr>) [plumbing] = Inr [plumbing]"
  by (simp add: regularServices_def Service_find_def cast_filter_def build_filter_def
      cursor_limit_def cursor_skip_def limit_of_def page_of_def skip_of_def sort_docs_def
      search_dot)

lemma count_dot:
  "countDocuments sample_env ((build_filter (no_query\<lparr>q_city := Some ''.''\<rparr>))\<lparr>f_isFeatured := Some False\<rparr>)
     [plumbing] = Inr 1"
  by (simp add: countDocuments_def Service_find_def cast_filter_def build_filter_def toLower_def)

lemma tutoring_fields [simp]:
  "isFeatured tutoring = False" "isVerified tutoring"
  "cities (serviceArea tutoring) = [''Oslo'']" "amount (pricing tutoring) = 500"
  "ratingAverage tutoring = 0" "category tutoring = ''education''"
  by (simp_all add: tutoring_def)

lemma home_query_list:
  "list_services sample_env [] anonymous home_query [plumbing, tutoring]
     = (Inr \<lparr>services = [plumbing\<lparr>viewCount := 1\<rparr>], currentPage = 1, totalServices = 1,
             hasPrevPage = False\<rparr>,
        [plumbing\<lparr>viewCount := 1\<rparr>, tutoring])"
proof -
  have f: "featuredServices sample_env home_query [plumbing, tutoring] = Inr []"
    by (simp add: home_query_def featuredServices_def Service_find_def cast_filter_def
        build_filter_def cursor_limit_def limit_of_def sort_docs_def)
  have r: "regularServices sample_env home_query [plumbing, tutoring] = Inr [plumbing]"
    by (simp add: home_query_def regularServices_def Service_find_def cast_filter_def
        build_filter_def cursor_limit_def cursor_skip_def limit_of_def page_of_def skip_of_def
        sort_docs_def toLower_def)
  have c: "countDocuments sample_env ((build_filter home_query)\<lparr>f_isFeatured := Some False\<rparr>)
      [plumbing, tutoring] = Inr 1"
    by (simp add: home_query_def countDocuments_def Service_find_def cast_filter_def
        build_filter_def toLower_def)
  have p: "page_of home_query = Some 1"
    by (simp add: home_query_def page_of_def)
  show ?thesis
    by (simp add: list_services_def f r c p incrementViewCount_def)
qed

lemma promo_fields [simp]:
  "service_id promo = ''444444444444444444444444''"
  "isFeatured promo" "featuredUntil promo = Some 1000" "status promo = ''active''"
  "isVerified promo" "createdAt promo = 100" "viewCount promo = 0"
  "service_id promo_late = ''555555555555555555555555''"
  "isFeatured promo_late" "featuredUntil promo_late = Some 3000" "status promo_late = ''active''"
  "isVerified promo_late" "createdAt promo_late = 100" "viewCount promo_late = 0"
  by (simp_all add: promo_def promo_late_def)

lemma featured_promo:
  "featuredServices sample_env no_query [promo] = Inr [promo]"
  "featuredServices sample_env (no_query\<lparr>q_limit := Some ''0''\<rparr>) [promo, promo_late]
     = Inr [promo_late, promo]"
  by (simp_all add: featuredServices_def Service_find_def cast_filter_def build_filter_def
      cursor_limit_def limit_of_def sort_docs_def sort_of_def sortObj_def compare_def)

lemma first_only_list:
  "list_services sample_env [] anonymous first_only [promo, promo_late, plumbing]
     = (Inr \<lparr>services = [promo_late\<lparr>viewCount := 1\<rparr>, plumbing\<lparr>viewCount := 1\<rparr>],
             currentPage = 1, totalServices = 2, hasPrevPage = False\<rparr>,
        [promo, promo_late\<lparr>viewCount := 1\<rparr>, plumbing\<lparr>viewCount := 1\<rparr>])"
proof -
  have f: "featuredServices sample_env first_only [promo, promo_late, plumbing] = Inr [promo_late]"
    by (simp add: first_only_def featuredServices_def Service_find_def cast_filter_def
        build_filter_def cursor_limit_def limit_of_def sort_docs_def sort_of_def sortObj_def
        compare_def)
  have r: "regularServices sample_env first_only [promo, promo_late, plumbing] = Inr [plumbing]"
    by (simp add: first_only_def regularServices_def Service_find_def cast_filter_def
        build_filter_def cursor_limit_def cursor_skip_def limit_of_def page_of_def skip_of_def
        sort_docs_def)
  have c: "countDocuments sample_env ((build_filter first_only)\<lparr>f_isFeatured := Some False\<rparr>)
      [promo, promo_late, plumbing] = Inr 1"
    by (simp add: first_only_def countDocuments_def Service_find_def cast_filter_def
        build_filter_def)
  have p: "page_of first_only = Some 1"
    by (simp add: first_only_def page_of_def)
  show ?thesis
    by (simp add: list_services_def f r c p incrementViewCount_def)
qed


lemma sort_irrelevant:
  "build_filter (q\<lparr>q_sort := x\<rparr>) = build_filter q"
  "limit_of (q\<lparr>q_sort := x\<rparr>) = limit_of q"
  "page_of (q\<lparr>q_sort := x\<rparr>) = page_of q"
  "skip_of (q\<lparr>q_sort := x\<rparr>) = skip_of q"
  "sort_of (q\<lparr>q_sort := Some s\<rparr>) = s"
  by (simp_all add: build_filter_def limit_of_def page_of_def skip_of_def sort_of_def)

lemma list_services_sort:
  assumes "sortObj (sort_of q) = sortObj (sort_of q')"
    and "build_filter q = build_filter q'" and "limit_of q = limit_of q'"
    and "page_of q = page_of q'" and "skip_of q = skip_of q'"
  shows "list_services E users req q store = list_services E users req q' store"
proof -
  have f: "featuredServices E q store = featuredServices E q' store"
    unfolding featuredServices_def assms by (rule refl)
  have r: "regularServices E q store = regularServices E q' store"
    unfolding regularServices_def assms by (rule refl)
  show ?thesis
    unfolding list_services_def f r assms by (rule refl)
qed

text \<open>
  Claim C1, as the code has it. Every listing in the response of the list route is
  active and verified and satisfies every filter that the query supplies with a value
  that is present and not empty: its category is the category parameter, some
  service-area city matches the city parameter as a case-insensitive regular expression,
  its price is within the bounds, and its rating average is at least the rating
  parameter, whatever the page, the limit and the sort are.
\<close>

theorem listed_satisfy_filters:
  assumes "list_services E users req q store = (Inr pg, store')"
    and "d \<in> set (services pg)"
  shows "satisfies (regexTest E) E q d"
proof -
  from list_services_parts [OF assms(1)] obtain fs rs where
    f: "featuredServices E q store = Inr fs" and r: "regularServices E q store = Inr rs" and
    s: "services pg = map incrementViewCount (fs @ rs)"
    by blast
  from assms(2) s obtain d0 where d0: "d = incrementViewCount d0" "d0 \<in> set fs \<or> d0 \<in> set rs"
    by auto
  with featured_matches [OF f] regular_matches [OF r] have "satisfies (regexTest E) E q d0"
    by blast
  with d0 show ?thesis by simp
qed

theorem listed_satisfy_filters_witness:
  "list_services sample_env [] anonymous home_query [plumbing, tutoring]
     = (Inr \<lparr>services = [plumbing\<lparr>viewCount := 1\<rparr>], currentPage = 1, totalServices = 1,
             hasPrevPage = False\<rparr>,
        [plumbing\<lparr>viewCount := 1\<rparr>, tutoring])
   \<and> satisfies (regexTest sample_env) sample_env home_query (plumbing\<lparr>viewCount := 1\<rparr>)"
  using listed_satisfy_filters [OF home_query_list, of "plumbing\<lparr>viewCount := 1\<rparr>"]
    home_query_list
  by simp

text \<open>
  Claim C1 as stated fails for a city parameter with a regular-expression
  metacharacter: the city is given to \<open>$regex\<close>, so the query \<open>city=.\<close> returns a listing
  whose only service-area city, Oslo, does not contain a dot.
\<close>

theorem regex_city_not_substring:
  "list_services sample_env [] anonymous (no_query\<lparr>q_city := Some ''.''\<rparr>) [plumbing]
     = (Inr \<lparr>services = [plumbing\<lparr>viewCount := 1\<rparr>], currentPage = 1, totalServices = 1,
             hasPrevPage = False\<rparr>,
        [plumbing\<lparr>viewCount := 1\<rparr>])
   \<and> \<not> satisfies claimed_city sample_env (no_query\<lparr>q_city := Some ''.''\<rparr>)
         (plumbing\<lparr>viewCount := 1\<rparr>)"
proof -
  have "list_services sample_env [] anonymous (no_query\<lparr>q_city := Some ''.''\<rparr>) [plumbing]
     = (Inr \<lparr>services = [plumbing\<lparr>viewCount := 1\<rparr>], currentPage = 1, totalServices = 1,
             hasPrevPage = False\<rparr>,
        [plumbing\<lparr>viewCount := 1\<rparr>])"
    by (simp add: list_services_def featured_dot regular_dot count_dot page_of_def
        incrementViewCount_def)
  moreover have "\<not> satisfies claimed_city sample_env (no_query\<lparr>q_city := Some ''.''\<rparr>)
         (plumbing\<lparr>viewCount := 1\<rparr>)"
    using not_includes_dot by (simp add: satisfies_def claimed_city_def)
  ultimately show ?thesis by blast
qed


text \<open>
  Claim C9, as the code has it. The response of the list route is the featured portion
  followed by the regular portion (each listing with its view count incremented). Every
  listing of the featured portion is featured and satisfies the filters of claim C1, and
  no listing of the regular portion is featured. When the limit is a positive integer,
  the featured portion has at most that many listings. The featured portion is ordered
  by feature-expiry descending (a listing without expiry last), then by the requested
  sort. The expiry itself is never compared with the time of the request.
\<close>

theorem featured_portion:
  assumes "list_services E users req q store = (Inr pg, store')"
  shows "\<exists>fs rs. featuredServices E q store = Inr fs \<and> regularServices E q store = Inr rs
           \<and> services pg = map incrementViewCount (fs @ rs)
           \<and> (\<forall>d \<in> set fs. isFeatured d \<and> satisfies (regexTest E) E q d)
           \<and> (\<forall>d \<in> set rs. \<not> isFeatured d)
           \<and> (\<forall>n. limit_of q = Some n \<and> 0 < n \<longrightarrow> int (length fs) \<le> n)
           \<and> sorted_wrt
                (\<lambda>a b. compare_option (featuredUntil b) (featuredUntil a) = LT
                       \<or> (featuredUntil a = featuredUntil b
                           \<and> compare_by (sortObj (sort_of q)) a b \<noteq> GT)) fs"
proof -
  from list_services_parts [OF assms] obtain fs rs where
    f: "featuredServices E q store = Inr fs" and r: "regularServices E q store = Inr rs" and
    s: "services pg = map incrementViewCount (fs @ rs)"
    by blast
  let ?spec = "(P_featuredUntil, - 1) # sortObj (sort_of q)"
  from f obtain ms where
    l: "cursor_limit (limit_of q) (sort_docs ?spec ms) = Inr fs"
    by (auto simp: featuredServices_def split: sum.splits)
  have 1: "\<forall>d \<in> set fs. isFeatured d \<and> satisfies (regexTest E) E q d"
    using featured_matches [OF f] by blast
  have 2: "\<forall>d \<in> set rs. \<not> isFeatured d"
    using regular_matches [OF r] by blast
  have 3: "\<forall>n. limit_of q = Some n \<and> 0 < n \<longrightarrow> int (length fs) \<le> n"
    using l cursor_limit_length by auto
  have "sorted_wrt (\<lambda>a b. compare_by ?spec a b \<noteq> GT) fs"
    using l sorted_sort_docs by (rule cursor_limit_sorted)
  then have 4: "sorted_wrt
                (\<lambda>a b. compare_option (featuredUntil b) (featuredUntil a) = LT
                       \<or> (featuredUntil a = featuredUntil b
                           \<and> compare_by (sortObj (sort_of q)) a b \<noteq> GT)) fs"
    by (simp only: featured_order)
  from f r s 1 2 3 4 show ?thesis by blast
qed


theorem featured_portion_witness:
  "list_services sample_env [] anonymous first_only [promo, promo_late, plumbing]
     = (Inr \<lparr>services = [promo_late\<lparr>viewCount := 1\<rparr>, plumbing\<lparr>viewCount := 1\<rparr>],
             currentPage = 1, totalServices = 2, hasPrevPage = False\<rparr>,
        [promo, promo_late\<lparr>viewCount := 1\<rparr>, plumbing\<lparr>viewCount := 1\<rparr>])
   \<and> featuredServices sample_env first_only [promo, promo_late, plumbing] = Inr [promo_late]
   \<and> limit_of first_only = Some 1
   \<and> isFeatured promo_late
   \<and> satisfies (regexTest sample_env) sample_env first_only promo_late"
proof -
  from featured_portion [OF first_only_list] obtain fs rs where
    f: "featuredServices sample_env first_only [promo, promo_late, plumbing] = Inr fs" and
    s: "[promo_late\<lparr>viewCount := 1\<rparr>, plumbing\<lparr>viewCount := 1\<rparr>]
          = map incrementViewCount (fs @ rs)" and
    m: "\<forall>d \<in> set fs. isFeatured d \<and> satisfies (regexTest sample_env) sample_env first_only d" and
    n: "\<forall>d \<in> set rs. \<not> isFeatured d" and
    l: "\<forall>n. limit_of first_only = Some n \<and> 0 < n \<longrightarrow> int (length fs) \<le> n"
    by auto
  have lim: "limit_of first_only = Some 1"
    by (simp add: first_only_def limit_of_def)
  have "featuredServices sample_env first_only [promo, promo_late, plumbing] = Inr [promo_late]"
    by (simp add: first_only_def featuredServices_def Service_find_def cast_filter_def
        build_filter_def cursor_limit_def limit_of_def sort_docs_def sort_of_def sortObj_def
        compare_def)
  with f have fs: "fs = [promo_late]" by simp
  with m have "isFeatured promo_late \<and> satisfies (regexTest sample_env) sample_env first_only promo_late"
    by simp
  with first_only_list f fs lim show ?thesis by simp
qed

text \<open>
  Claim C9 as stated fails twice. A featured listing whose expiry (1000) has passed at
  the time of the request (2000, say) is returned in the featured portion: the filter
  reads \<open>isFeatured\<close> only. And with \<open>limit=0\<close>, which the route does not reject, the
  featured portion is not bounded by the limit: here it has two listings.
\<close>

theorem featured_expired_unbounded:
  "list_services sample_env [] anonymous no_query [promo]
     = (Inr \<lparr>services = [promo\<lparr>viewCount := 1\<rparr>], currentPage = 1, totalServices = 1,
             hasPrevPage = False\<rparr>,
        [promo\<lparr>viewCount := 1\<rparr>])
   \<and> isFeatured promo \<and> expired 2000 promo
   \<and> featuredServices sample_env (no_query\<lparr>q_limit := Some ''0''\<rparr>) [promo, promo_late]
       = Inr [promo_late, promo]
   \<and> limit_of (no_query\<lparr>q_limit := Some ''0''\<rparr>) = Some 0"
proof -
  have r: "regularServices sample_env no_query [promo] = Inr []"
    by (simp add: regularServices_def Service_find_def cast_filter_def build_filter_def
        cursor_limit_def cursor_skip_def limit_of_def page_of_def skip_of_def sort_docs_def)
  have c: "countDocuments sample_env ((build_filter no_query)\<lparr>f_isFeatured := Some False\<rparr>)
      [promo] = Inr 0"
    by (simp add: countDocuments_def Service_find_def cast_filter_def build_filter_def)
  have "list_services sample_env [] anonymous no_query [promo]
     = (Inr \<lparr>services = [promo\<lparr>viewCount := 1\<rparr>], currentPage = 1, totalServices = 1,
             hasPrevPage = False\<rparr>,
        [promo\<lparr>viewCount := 1\<rparr>])"
    by (simp add: list_services_def featured_promo r c page_of_def incrementViewCount_def)
  moreover have "expired 2000 promo" by (simp add: expired_def)
  moreover have "limit_of (no_query\<lparr>q_limit := Some ''0''\<rparr>) = Some 0"
    by (simp add: limit_of_def)
  ultimately show ?thesis using featured_promo(2) by simp
qed

lemma parse_more [simp]:
  "parseInt ''2'' = Some 2" "isInt ''2'' = Some 2" "isInt ''1'' = Some 1" "isInt ''7'' = Some 7"
  by (simp_all add: parseInt_def isInt_def isDigit_def digit_def charCode_def startsWith_def
      isSpace_def Let_def)

lemma decimal_seven [simp]: "decimal ''7'' = Some 7"
  by (simp add: decimal_def)

lemma sloppy_simps [simp]:
  "limit_of sloppy = Some 100" "page_of sloppy = Some 1" "sort_of sloppy = ''cheapest''"
  "q_sort sloppy = Some ''cheapest''"
  by (simp_all add: sloppy_def limit_of_def page_of_def sort_of_def)

lemma sloppy_casts: "cast_filter sample_env (build_filter sloppy) \<noteq> None"
  by (simp add: sloppy_def cast_filter_def build_filter_def)

lemma sloppy_invalid: "\<not> query_valid sample_env sloppy"
  by (simp add: query_valid_def sloppy_def)

lemma sloppy_satisfies:
  "status d = ''active'' \<Longrightarrow> isVerified d \<Longrightarrow> amount (pricing d) = 500 \<Longrightarrow>
     satisfies t sample_env sloppy d"
  by (simp add: satisfies_def sloppy_def)

lemma catalogue_satisfies: "d \<in> set catalogue \<Longrightarrow> satisfies t sample_env sloppy d"
  by (rule sloppy_satisfies) (auto simp: catalogue_def)

lemma catalogue_plain: "d \<in> set catalogue \<Longrightarrow> \<not> isFeatured d"
  by (auto simp: catalogue_def)

lemma catalogue_regular:
  "filter (\<lambda>d. satisfies t sample_env sloppy d \<and> \<not> isFeatured d) catalogue = catalogue"
  "filter (\<lambda>d. satisfies t sample_env sloppy d \<and> isFeatured d) catalogue = []"
  "length catalogue = 60"
  by (simp_all add: filter_empty_conv filter_id_conv catalogue_satisfies catalogue_plain)
     (simp add: catalogue_def)

lemma sort_docs_Nil [simp]: "sort_docs spec [] = []"
  by (simp add: sort_docs_def)

lemma later_fields [simp]:
  "service_id later = ''222222222222222222222222''" "status later = ''active''"
  "isVerified later" "isFeatured later = False" "createdAt later = 200"
  "amount (pricing later) = 500" "ratingAverage later = 0" "viewCount later = 0"
  "status top_rated = ''active''" "isVerified top_rated" "isFeatured top_rated = False"
  "ratingAverage top_rated = 5" "service_id top_rated = ''111111111111111111111111''"
  by (simp_all add: later_def top_rated_def tutoring_def)

lemma sloppy_two:
  "list_services sample_env [] anonymous sloppy [plumbing, later]
     = (Inr \<lparr>services = [later\<lparr>viewCount := 1\<rparr>, plumbing\<lparr>viewCount := 1\<rparr>],
             currentPage = 1, totalServices = 2, hasPrevPage = False\<rparr>,
        [plumbing\<lparr>viewCount := 1\<rparr>, later\<lparr>viewCount := 1\<rparr>])"
proof -
  have f: "featuredServices sample_env sloppy [plumbing, later] = Inr []"
    by (simp add: sloppy_def featuredServices_def Service_find_def cast_filter_def
        build_filter_def cursor_limit_def limit_of_def)
  have r: "regularServices sample_env sloppy [plumbing, later] = Inr [later, plumbing]"
    by (simp add: sloppy_def regularServices_def Service_find_def cast_filter_def
        build_filter_def cursor_limit_def cursor_skip_def limit_of_def page_of_def skip_of_def
        sort_docs_def sort_of_def sortObj_def compare_def)
  have c: "countDocuments sample_env ((build_filter sloppy)\<lparr>f_isFeatured := Some False\<rparr>)
      [plumbing, later] = Inr 2"
    by (simp add: sloppy_def countDocuments_def Service_find_def cast_filter_def
        build_filter_def)
  show ?thesis
    by (simp add: list_services_def f r c incrementViewCount_def)
qed

lemma second_page_two:
  "list_services sample_env [] anonymous second_page [plumbing, later]
     = (Inr \<lparr>services = [plumbing\<lparr>viewCount := 1\<rparr>],
             currentPage = 2, totalServices = 2, hasPrevPage = True\<rparr>,
        [plumbing\<lparr>viewCount := 1\<rparr>, later])"
proof -
  have f: "featuredServices sample_env second_page [plumbing, later] = Inr []"
    by (simp add: second_page_def featuredServices_def Service_find_def cast_filter_def
        build_filter_def cursor_limit_def limit_of_def)
  have r: "regularServices sample_env second_page [plumbing, later] = Inr [plumbing]"
    by (simp add: second_page_def regularServices_def Service_find_def cast_filter_def
        build_filter_def cursor_limit_def cursor_skip_def limit_of_def page_of_def skip_of_def
        sort_docs_def sort_of_def sortObj_def compare_def)
  have c: "countDocuments sample_env ((build_filter second_page)\<lparr>f_isFeatured := Some False\<rparr>)
      [plumbing, later] = Inr 2"
    by (simp add: second_page_def countDocuments_def Service_find_def cast_filter_def
        build_filter_def)
  have p: "page_of second_page = Some 2"
    by (simp add: second_page_def page_of_def)
  show ?thesis
    by (simp add: list_services_def f r c p incrementViewCount_def)
qed

lemma rating_seven_none:
  "list_services sample_env [] anonymous rating_seven [top_rated]
     = (Inr \<lparr>services = [], currentPage = 1, totalServices = 0, hasPrevPage = False\<rparr>,
        [top_rated])"
proof -
  have f: "featuredServices sample_env rating_seven [top_rated] = Inr []"
    by (simp add: rating_seven_def featuredServices_def Service_find_def cast_filter_def
        build_filter_def cursor_limit_def limit_of_def)
  have r: "regularServices sample_env rating_seven [top_rated] = Inr []"
    by (simp add: rating_seven_def regularServices_def Service_find_def cast_filter_def
        build_filter_def cursor_limit_def cursor_skip_def limit_of_def page_of_def skip_of_def)
  have c: "countDocuments sample_env ((build_filter rating_seven)\<lparr>f_isFeatured := Some False\<rparr>)
      [top_rated] = Inr 0"
    by (simp add: rating_seven_def countDocuments_def Service_find_def cast_filter_def
        build_filter_def)
  have p: "page_of rating_seven = Some 1"
    by (simp add: rating_seven_def page_of_def)
  show ?thesis
    by (simp add: list_services_def f r c p)
qed

lemma invalid_queries:
  "\<not> query_valid sample_env page_zero" "\<not> query_valid sample_env rating_seven"
  "query_valid sample_env second_page"
  by (simp_all add: query_valid_def page_zero_def rating_seven_def second_page_def)

text \<open>
  Claim C10. The list route answers with a page or with a server error, never with a
  validation error, whether or not the query passes the validation chains declared on
  the route. A sort parameter other than \<open>price_asc\<close>, \<open>price_desc\<close>, \<open>rating_desc\<close> and
  \<open>oldest\<close> gives the response of \<open>newest\<close>, which sorts by creation time descending.
  The parameters are used as they are parsed. For a positive limit \<open>n\<close> and a page
  \<open>p\<close> of at least 1, whatever their size, and filter values that can be cast, the
  response is exactly: the first \<open>n\<close> featured listings that satisfy the filters,
  followed by the \<open>n\<close> regular listings after the first \<open>(p - 1) * n\<close> that satisfy the
  filters, each portion in its sort order; the filters compare with the numbers the
  parameters cast to, with no clamping. A page and limit whose skip is negative (page 0
  with a positive limit) and a filter value that cannot be cast give a server error.
\<close>

theorem list_ignores_validation:
  "sortObj ''newest'' = [(P_createdAt, - 1)]
   \<and> (\<forall>e. fst (list_services E users req q store) = Inl e \<longrightarrow> e = ServerError)
   \<and> (\<forall>s. q_sort q = Some s
          \<and> s \<notin> set [''price_asc'', ''price_desc'', ''rating_desc'', ''oldest'']
        \<longrightarrow> list_services E users req q store
              = list_services E users req (q\<lparr>q_sort := Some ''newest''\<rparr>) store)
   \<and> (\<forall>s. q_limit q = Some s \<longrightarrow> limit_of q = parseInt s)
   \<and> (\<forall>s. q_page q = Some s \<longrightarrow> page_of q = parseInt s)
   \<and> (\<forall>n p. limit_of q = Some n \<and> 0 < n \<and> page_of q = Some p \<and> 1 \<le> p
          \<and> cast_filter E (build_filter q) \<noteq> None
        \<longrightarrow> fst (list_services E users req q store) =
              Inr \<lparr>services = map incrementViewCount
                       (take (nat n)
                          (sort_docs ((P_featuredUntil, - 1) # sortObj (sort_of q))
                             (filter (\<lambda>d. satisfies (regexTest E) E q d \<and> isFeatured d) store))
                        @ take (nat n) (drop (nat ((p - 1) * n))
                            (sort_docs (sortObj (sort_of q))
                               (filter (\<lambda>d. satisfies (regexTest E) E q d \<and> \<not> isFeatured d)
                                  store)))),
                    currentPage = p,
                    totalServices =
                      length (filter (\<lambda>d. satisfies (regexTest E) E q d \<and> \<not> isFeatured d) store)
                      + min (nat n)
                          (length (filter (\<lambda>d. satisfies (regexTest E) E q d \<and> isFeatured d)
                                     store)),
                    hasPrevPage = (1 < p)\<rparr>)
   \<and> (\<forall>n p. limit_of q = Some n \<and> page_of q = Some p \<and> (p - 1) * n < 0
        \<longrightarrow> list_services E users req q store = (Inl ServerError, store))
   \<and> (cast_filter E (build_filter q) = None
        \<longrightarrow> list_services E users req q store = (Inl ServerError, store))
   \<and> (\<forall>s n ms. q_limit q = Some s \<and> parseInt s = Some n \<and> 0 < n
          \<and> Service_find E ((build_filter q)\<lparr>f_isFeatured := Some True\<rparr>) store = Inr ms
        \<longrightarrow> (\<exists>fs. featuredServices E q store = Inr fs
               \<and> length fs = min (nat n) (length ms)))"
proof (intro conjI allI impI)
  show "sortObj ''newest'' = [(P_createdAt, - 1)]" by (simp add: sortObj_def)
next
  fix e assume "fst (list_services E users req q store) = Inl e"
  then show "e = ServerError" by (rule list_services_error)
next
  fix s
  assume a: "q_sort q = Some s
          \<and> s \<notin> set [''price_asc'', ''price_desc'', ''rating_desc'', ''oldest'']"
  then have "sortObj (sort_of q) = sortObj (sort_of (q\<lparr>q_sort := Some ''newest''\<rparr>))"
    using sortObj_default [of s] by (simp add: sort_of_def)
  then show "list_services E users req q store
              = list_services E users req (q\<lparr>q_sort := Some ''newest''\<rparr>) store"
    by (rule list_services_sort) (simp_all add: sort_irrelevant)
next
  fix s assume "q_limit q = Some s"
  then show "limit_of q = parseInt s" by (simp add: limit_of_def)
next
  fix s assume "q_page q = Some s"
  then show "page_of q = parseInt s" by (simp add: page_of_def)
next
  fix n p
  assume a: "limit_of q = Some n \<and> 0 < n \<and> page_of q = Some p \<and> 1 \<le> p
          \<and> cast_filter E (build_filter q) \<noteq> None"
  then have 1: "limit_of q = Some n" and 2: "0 < n" and 3: "page_of q = Some p" and 4: "1 \<le> p"
    and 5: "cast_filter E (build_filter q) \<noteq> None"
    by blast+
  show "fst (list_services E users req q store) =
              Inr \<lparr>services = map incrementViewCount
                       (take (nat n)
                          (sort_docs ((P_featuredUntil, - 1) # sortObj (sort_of q))
                             (filter (\<lambda>d. satisfies (regexTest E) E q d \<and> isFeatured d) store))
                        @ take (nat n) (drop (nat ((p - 1) * n))
                            (sort_docs (sortObj (sort_of q))
                               (filter (\<lambda>d. satisfies (regexTest E) E q d \<and> \<not> isFeatured d)
                                  store)))),
                    currentPage = p,
                    totalServices =
                      length (filter (\<lambda>d. satisfies (regexTest E) E q d \<and> \<not> isFeatured d) store)
                      + min (nat n)
                          (length (filter (\<lambda>d. satisfies (regexTest E) E q d \<and> isFeatured d)
                                     store)),
                    hasPrevPage = (1 < p)\<rparr>"
    using 1 2 3 4 5 by (rule list_services_page)
next
  fix n p
  assume "limit_of q = Some n \<and> page_of q = Some p \<and> (p - 1) * n < 0"
  then show "list_services E users req q store = (Inl ServerError, store)"
    using list_services_negative_skip by blast
next
  assume "cast_filter E (build_filter q) = None"
  then show "list_services E users req q store = (Inl ServerError, store)"
    by (rule list_services_cast_fails)
next
  fix s n ms
  assume a: "q_limit q = Some s \<and> parseInt s = Some n \<and> 0 < n
          \<and> Service_find E ((build_filter q)\<lparr>f_isFeatured := Some True\<rparr>) store = Inr ms"
  then have "limit_of q = Some n" by (simp add: limit_of_def)
  with a show "\<exists>fs. featuredServices E q store = Inr fs
               \<and> length fs = min (nat n) (length ms)"
    by (simp add: featuredServices_def cursor_limit_def min_def)
qed

theorem list_ignores_validation_witness:
  "\<not> query_valid sample_env sloppy
   \<and> map_sum (\<lambda>e. e) (\<lambda>pg. length (services pg))
        (fst (list_services sample_env [] anonymous sloppy catalogue)) = Inr 60
   \<and> list_services sample_env [] anonymous sloppy [plumbing, later]
       = (Inr \<lparr>services = [later\<lparr>viewCount := 1\<rparr>, plumbing\<lparr>viewCount := 1\<rparr>],
               currentPage = 1, totalServices = 2, hasPrevPage = False\<rparr>,
          [plumbing\<lparr>viewCount := 1\<rparr>, later\<lparr>viewCount := 1\<rparr>])
   \<and> \<not> query_valid sample_env page_zero
   \<and> list_services sample_env [] anonymous page_zero [plumbing, later]
       = (Inl ServerError, [plumbing, later])
   \<and> \<not> query_valid sample_env rating_seven
   \<and> list_services sample_env [] anonymous rating_seven [top_rated]
       = (Inr \<lparr>services = [], currentPage = 1, totalServices = 0, hasPrevPage = False\<rparr>,
          [top_rated])
   \<and> list_services sample_env [] anonymous second_page [plumbing, later]
       = (Inr \<lparr>services = [plumbing\<lparr>viewCount := 1\<rparr>],
               currentPage = 2, totalServices = 2, hasPrevPage = True\<rparr>,
          [plumbing\<lparr>viewCount := 1\<rparr>, later])"
proof -
  note big = list_ignores_validation [of sample_env "[]" anonymous sloppy catalogue,
      THEN conjunct2, THEN conjunct2, THEN conjunct2, THEN conjunct2, THEN conjunct2,
      THEN conjunct1, rule_format, of 100 1]
  have 1: "map_sum (\<lambda>e. e) (\<lambda>pg. length (services pg))
        (fst (list_services sample_env [] anonymous sloppy catalogue)) = Inr 60"
    using big sloppy_casts by (simp add: catalogue_regular)
  note zero = list_ignores_validation [of sample_env "[]" anonymous page_zero "[plumbing, later]",
      THEN conjunct2, THEN conjunct2, THEN conjunct2, THEN conjunct2, THEN conjunct2,
      THEN conjunct2, THEN conjunct1, rule_format, of 12 0]
  have 2: "list_services sample_env [] anonymous page_zero [plumbing, later]
       = (Inl ServerError, [plumbing, later])"
    using zero by (simp add: page_zero_def limit_of_def page_of_def)
  from sloppy_invalid 1 sloppy_two invalid_queries(1) 2 invalid_queries(2) rating_seven_none
    second_page_two
  show ?thesis by blast
qed

end
